theory Spec2Isabelle
  imports Complex_Main "HOL-Library.Word"
begin

section \<open>JavaScript values needed by the dashboard\<close>

text \<open>
  The dashboard is React code. Only the fragment of JavaScript that the components use is
  modelled: property lookup on an object literal (with the prototype chain), truthiness and
  the \<open>||\<close> operator.
\<close>

datatype js_value =
    JUndefined
  | JString string
  | JFunction string
  | JObject string

fun truthy :: "js_value \<Rightarrow> bool" where
  "truthy JUndefined = False"
| "truthy (JString s) = (s \<noteq> [])"
| "truthy (JFunction _) = True"
| "truthy (JObject _) = True"

definition js_or :: "js_value \<Rightarrow> js_value \<Rightarrow> js_value" where
  "js_or a b = (if truthy a then a else b)"

text \<open>
  An object literal inherits from \<open>Object.prototype\<close>. These are the properties every
  engine that runs the dashboard defines there (ECMAScript, with Annex B).
\<close>

definition Object_prototype :: "(string \<times> js_value) list" where
  "Object_prototype =
     [(''constructor'', JFunction ''Object''),
      (''hasOwnProperty'', JFunction ''hasOwnProperty''),
      (''isPrototypeOf'', JFunction ''isPrototypeOf''),
      (''propertyIsEnumerable'', JFunction ''propertyIsEnumerable''),
      (''toLocaleString'', JFunction ''toLocaleString''),
      (''toString'', JFunction ''toString''),
      (''valueOf'', JFunction ''valueOf''),
      (''__proto__'', JObject ''Object.prototype''),
      (''__defineGetter__'', JFunction ''__defineGetter__''),
      (''__defineSetter__'', JFunction ''__defineSetter__''),
      (''__lookupGetter__'', JFunction ''__lookupGetter__''),
      (''__lookupSetter__'', JFunction ''__lookupSetter__'')]"

text \<open>\<open>obj[key]\<close> for an object literal with the own properties \<open>own\<close>.\<close>

definition get_property :: "(string \<times> js_value) list \<Rightarrow> string \<Rightarrow> js_value" where
  "get_property own key =
     (case map_of own key of
        Some v \<Rightarrow> v
      | None \<Rightarrow> (case map_of Object_prototype key of Some v \<Rightarrow> v | None \<Rightarrow> JUndefined))"

section \<open>StatusBadge\<close>

record badge =
  padding :: string
  borderRadius :: string
  backgroundColor :: js_value
  color :: string
  fontSize :: string
  fontWeight :: string
  children :: string

text \<open>The color table of \<open>StatusBadge\<close> in the workflow list (eight entries).\<close>

definition colors_WorkflowList :: "(string \<times> js_value) list" where
  "colors_WorkflowList =
     [(''RECEIVED'', JString ''#9ca3af''),
      (''AI_ANALYZED'', JString ''#60a5fa''),
      (''WAITING_FOR_APPROVAL'', JString ''#f59e0b''),
      (''ACTION_APPROVED'', JString ''#6366f1''),
      (''ACTION_EXECUTED'', JString ''#10b981''),
      (''REJECTED'', JString ''#ef4444''),
      (''AI_FAILED'', JString ''#dc2626''),
      (''ACTION_FAILED'', JString ''#991b1b'')]"

text \<open>The color table of \<open>StatusBadge\<close> in the single-page dashboard (six entries).\<close>

definition colors_App :: "(string \<times> js_value) list" where
  "colors_App =
     [(''RECEIVED'', JString ''#9ca3af''),
      (''AI_ANALYZED'', JString ''#60a5fa''),
      (''WAITING_FOR_APPROVAL'', JString ''#f59e0b''),
      (''ACTION_EXECUTED'', JString ''#10b981''),
      (''REJECTED'', JString ''#ef4444''),
      (''AI_FAILED'', JString ''#dc2626'')]"

definition StatusBadge_WorkflowList :: "string \<Rightarrow> badge" where
  "StatusBadge_WorkflowList state =
     \<lparr> padding = ''4px 8px'',
       borderRadius = ''6px'',
       backgroundColor = js_or (get_property colors_WorkflowList state) (JString ''#e5e7eb''),
       color = ''white'',
       fontSize = ''12px'',
       fontWeight = ''500'',
       children = state \<rparr>"

definition StatusBadge_App :: "string \<Rightarrow> badge" where
  "StatusBadge_App state =
     \<lparr> padding = ''4px 8px'',
       borderRadius = ''6px'',
       backgroundColor = js_or (get_property colors_App state) (JString ''#e5e7eb''),
       color = ''white'',
       fontSize = ''12px'',
       fontWeight = ''500'',
       children = state \<rparr>"

text \<open>The eight state names of the state machine, as the dashboard receives them.\<close>

definition state_names :: "string list" where
  "state_names =
     [''RECEIVED'', ''AI_ANALYZED'', ''WAITING_FOR_APPROVAL'', ''ACTION_APPROVED'',
      ''ACTION_EXECUTED'', ''ACTION_FAILED'', ''REJECTED'', ''AI_FAILED'']"

section \<open>Text typed by the user\<close>

text \<open>
  State names, identifiers and URLs are ASCII and kept as \<open>string\<close>. The request text
  is free input; it is kept as a JavaScript string really is, a sequence of UTF-16 code
  units, because \<open>trim\<close> strips code units that do not fit in a byte.
\<close>

type_synonym utf16 = "16 word list"

text \<open>
  What \<open>String.prototype.trim\<close> strips: the WhiteSpace and LineTerminator code points of
  ECMAScript (TAB, LF, VT, FF, CR, SP, NBSP, the Unicode space separators, LS, PS, BOM).
\<close>

definition is_white_space :: "16 word \<Rightarrow> bool" where
  "is_white_space c =
     (c = 0x09 \<or> c = 0x0A \<or> c = 0x0B \<or> c = 0x0C \<or> c = 0x0D \<or> c = 0x20 \<or> c = 0xA0
      \<or> c = 0x1680 \<or> (0x2000 \<le> c \<and> c \<le> 0x200A) \<or> c = 0x2028 \<or> c = 0x2029
      \<or> c = 0x202F \<or> c = 0x205F \<or> c = 0x3000 \<or> c = 0xFEFF)"

definition trim :: "utf16 \<Rightarrow> utf16" where
  "trim s = rev (dropWhile is_white_space (rev (dropWhile is_white_space s)))"

section \<open>HTTP as the dashboard uses it\<close>

definition API_BASE :: string where
  "API_BASE = ''http://127.0.0.1:8000''"

datatype http_method = GET | POST

text \<open>The two JSON bodies the dashboard builds with \<open>JSON.stringify\<close>.\<close>

datatype request_body =
    Create_body (body_text: utf16)
  | Decide_body (body_decision: string) (body_reviewer: string) (body_notes: "string option")

record http_request =
  http_method :: http_method
  url :: string
  content_type :: "string option"
  body :: "request_body option"

text \<open>\<open>fetch(url)\<close> with no options is a GET without a body.\<close>

definition fetch_get :: "string \<Rightarrow> http_request" where
  "fetch_get u = \<lparr> http_method = GET, url = u, content_type = None, body = None \<rparr>"

definition fetch_post :: "string \<Rightarrow> request_body \<Rightarrow> http_request" where
  "fetch_post u b =
     \<lparr> http_method = POST, url = u, content_type = Some ''application/json'', body = Some b \<rparr>"

text \<open>
  What awaiting a \<open>fetch\<close> gives: the promise rejects (no connection), or it resolves to a
  response whose \<open>json()\<close> either rejects with a message or yields the decoded body.
\<close>

record 'a response =
  ok :: bool
  json :: "string + 'a"

datatype 'a fetch_outcome = Network_error string | Response "'a response"

section \<open>The dashboard\<close>

text \<open>
  A workflow as the list endpoint returns it. The summary has further fields (the AI output,
  the human decision) that the functions below do not read; the record type is extensible.
\<close>

record workflow =
  wf_id :: string
  wf_request_text :: utf16
  wf_state :: string
  wf_created_at :: string

record dashboard =
  workflows :: "workflow list"
  loading :: bool
  error :: "string option"
  newRequest :: utf16
  creating :: bool
  actionInProgress :: "string option"

text \<open>What a button does when clicked.\<close>

datatype handler = Call_createWorkflow | Call_approveWorkflow string string

record button =
  label :: string
  disabled :: bool
  onClick :: handler

subsection \<open>The workflow list (routed dashboard)\<close>

definition loadWorkflows_WorkflowList ::
  "workflow list fetch_outcome \<Rightarrow> dashboard \<Rightarrow> http_request list \<times> dashboard" where
  "loadWorkflows_WorkflowList outcome ui =
     ([fetch_get (API_BASE @ ''/workflows'')],
      (case outcome of
         Network_error msg \<Rightarrow> ui\<lparr>error := Some msg, loading := False\<rparr>
       | Response res \<Rightarrow>
           if \<not> ok res then ui\<lparr>error := Some ''Failed to load workflows'', loading := False\<rparr>
           else (case json res of
                   Inl msg \<Rightarrow> ui\<lparr>error := Some msg, loading := False\<rparr>
                 | Inr data \<Rightarrow> ui\<lparr>workflows := data, loading := False\<rparr>)))"

text \<open>
  There is no \<open>try\<close> around the POST here: when the fetch rejects, the rest of the function
  does not run. The response is never inspected.
\<close>

definition createWorkflow_WorkflowList ::
  "'a fetch_outcome \<Rightarrow> workflow list fetch_outcome \<Rightarrow> dashboard \<Rightarrow>
     http_request list \<times> dashboard" where
  "createWorkflow_WorkflowList posted loaded ui =
     (if trim (newRequest ui) = [] then ([], ui)
      else
        let ui1 = ui\<lparr>creating := True\<rparr>;
            req = fetch_post (API_BASE @ ''/workflows'') (Create_body (newRequest ui))
        in (case posted of
              Network_error _ \<Rightarrow> ([req], ui1)
            | Response _ \<Rightarrow>
                let (reqs, ui2) =
                      loadWorkflows_WorkflowList loaded (ui1\<lparr>newRequest := [], creating := False\<rparr>)
                in (req # reqs, ui2)))"

definition approveWorkflow_WorkflowList ::
  "string \<Rightarrow> string \<Rightarrow> 'a fetch_outcome \<Rightarrow> workflow list fetch_outcome \<Rightarrow> dashboard \<Rightarrow>
     http_request list \<times> dashboard" where
  "approveWorkflow_WorkflowList ident decision posted loaded ui =
     (let ui1 = ui\<lparr>actionInProgress := Some ident\<rparr>;
          req = fetch_post (API_BASE @ ''/workflows/'' @ ident @ ''/approve'')
                  (Decide_body decision ''user@company.com'' None)
      in (case posted of
            Network_error _ \<Rightarrow> ([req], ui1)
          | Response _ \<Rightarrow>
              let (reqs, ui2) = loadWorkflows_WorkflowList loaded (ui1\<lparr>actionInProgress := None\<rparr>)
              in (req # reqs, ui2)))"

text \<open>The Approve and Reject buttons of one workflow card.\<close>

definition decision_buttons_WorkflowList :: "'m workflow_scheme \<Rightarrow> string option \<Rightarrow> button list" where
  "decision_buttons_WorkflowList w in_progress =
     (if wf_state w = ''WAITING_FOR_APPROVAL'' then
        [\<lparr> label = ''Approve'', disabled = (in_progress = Some (wf_id w)),
            onClick = Call_approveWorkflow (wf_id w) ''approved'' \<rparr>,
         \<lparr> label = ''Reject'', disabled = (in_progress = Some (wf_id w)),
            onClick = Call_approveWorkflow (wf_id w) ''rejected'' \<rparr>]
      else [])"

definition create_button_WorkflowList :: "dashboard \<Rightarrow> button" where
  "create_button_WorkflowList ui =
     \<lparr> label = ''Create Workflow'', disabled = creating ui, onClick = Call_createWorkflow \<rparr>"

text \<open>Every button the list shows once it has loaded.\<close>

definition buttons_WorkflowList :: "dashboard \<Rightarrow> button list" where
  "buttons_WorkflowList ui =
     (if loading ui then []
      else create_button_WorkflowList ui
           # concat (map (\<lambda>w. decision_buttons_WorkflowList w (actionInProgress ui)) (workflows ui)))"

text \<open>A click on a button: a disabled button does nothing, an enabled one runs its handler.\<close>

definition click_WorkflowList ::
  "button \<Rightarrow> 'a fetch_outcome \<Rightarrow> workflow list fetch_outcome \<Rightarrow> dashboard \<Rightarrow>
     http_request list \<times> dashboard" where
  "click_WorkflowList b posted loaded ui =
     (if disabled b then ([], ui)
      else (case onClick b of
              Call_createWorkflow \<Rightarrow> createWorkflow_WorkflowList posted loaded ui
            | Call_approveWorkflow ident decision \<Rightarrow>
                approveWorkflow_WorkflowList ident decision posted loaded ui))"

subsection \<open>The single-page dashboard\<close>

text \<open>\<open>x.detail || fallback\<close> for the \<open>detail\<close> of a decoded error body.\<close>

definition detail_or :: "string option \<Rightarrow> string \<Rightarrow> string" where
  "detail_or detail fallback =
     (case detail of None \<Rightarrow> fallback | Some d \<Rightarrow> if d = [] then fallback else d)"

definition loadWorkflows_App ::
  "workflow list fetch_outcome \<Rightarrow> dashboard \<Rightarrow> http_request list \<times> dashboard" where
  "loadWorkflows_App outcome ui =
     ([fetch_get (API_BASE @ ''/workflows'')],
      (case outcome of
         Network_error msg \<Rightarrow>
           ui\<lparr>error := Some (''Failed to load workflows: '' @ msg), loading := False\<rparr>
       | Response res \<Rightarrow>
           if \<not> ok res then
             ui\<lparr>error := Some (''Failed to load workflows: '' @ ''Failed to load workflows''),
                loading := False\<rparr>
           else (case json res of
                   Inl msg \<Rightarrow>
                     ui\<lparr>error := Some (''Failed to load workflows: '' @ msg), loading := False\<rparr>
                 | Inr data \<Rightarrow> ui\<lparr>workflows := data, loading := False\<rparr>)))"

text \<open>
  The decoded body of a POST response is only read for its \<open>detail\<close>. When the body is
  \<open>null\<close>, reading \<open>errData.detail\<close> throws a TypeError, whose message is the engine's;
  for any other value the read gives the detail, as the text \<open>new Error\<close> makes of it, or
  nothing.
\<close>

datatype error_body = Null_body string | Body "string option"

definition createWorkflow_App ::
  "error_body fetch_outcome \<Rightarrow> workflow list fetch_outcome \<Rightarrow> dashboard \<Rightarrow>
     http_request list \<times> dashboard" where
  "createWorkflow_App posted loaded ui =
     (if trim (newRequest ui) = [] then
        ([], ui\<lparr>error := Some ''Request text cannot be empty''\<rparr>)
      else
        let ui1 = ui\<lparr>error := None, creating := True\<rparr>;
            req = fetch_post (API_BASE @ ''/workflows'') (Create_body (trim (newRequest ui)))
        in (case posted of
              Network_error msg \<Rightarrow> ([req], ui1\<lparr>error := Some msg, creating := False\<rparr>)
            | Response res \<Rightarrow>
                (case json res of
                   Inl msg \<Rightarrow> ([req], ui1\<lparr>error := Some msg, creating := False\<rparr>)
                 | Inr errData \<Rightarrow>
                     if \<not> ok res then
                       (case errData of
                          Null_body msg \<Rightarrow> ([req], ui1\<lparr>error := Some msg, creating := False\<rparr>)
                        | Body detail \<Rightarrow>
                            ([req],
                             ui1\<lparr>error := Some (detail_or detail ''Failed to create workflow''),
                                 creating := False\<rparr>))
                     else
                       let (reqs, ui2) = loadWorkflows_App loaded (ui1\<lparr>newRequest := []\<rparr>)
                       in (req # reqs, ui2\<lparr>creating := False\<rparr>))))"

definition approveWorkflow_App ::
  "string \<Rightarrow> string \<Rightarrow> error_body fetch_outcome \<Rightarrow> workflow list fetch_outcome \<Rightarrow>
     dashboard \<Rightarrow> http_request list \<times> dashboard" where
  "approveWorkflow_App ident decision posted loaded ui =
     (let ui1 = ui\<lparr>error := None, actionInProgress := Some ident\<rparr>;
          req = fetch_post (API_BASE @ ''/workflows/'' @ ident @ ''/approve'')
                  (Decide_body decision ''user@company.com''
                     (Some (if decision = ''approved'' then ''Approved via UI''
                            else ''Rejected via UI'')))
      in (case posted of
            Network_error msg \<Rightarrow> ([req], ui1\<lparr>error := Some msg, actionInProgress := None\<rparr>)
          | Response res \<Rightarrow>
              if \<not> ok res then
                (case json res of
                   Inl msg \<Rightarrow> ([req], ui1\<lparr>error := Some msg, actionInProgress := None\<rparr>)
                 | Inr (Null_body msg) \<Rightarrow>
                     ([req], ui1\<lparr>error := Some msg, actionInProgress := None\<rparr>)
                 | Inr (Body detail) \<Rightarrow>
                     ([req], ui1\<lparr>error := Some (detail_or detail ''Approval failed''),
                                 actionInProgress := None\<rparr>))
              else
                let (reqs, ui2) = loadWorkflows_App loaded ui1
                in (req # reqs, ui2\<lparr>actionInProgress := None\<rparr>)))"

definition decision_buttons_App :: "'m workflow_scheme \<Rightarrow> string option \<Rightarrow> button list" where
  "decision_buttons_App w in_progress =
     (if wf_state w = ''WAITING_FOR_APPROVAL'' then
        [\<lparr> label = ''Approve'', disabled = (in_progress = Some (wf_id w)),
            onClick = Call_approveWorkflow (wf_id w) ''approved'' \<rparr>,
         \<lparr> label = ''Reject'', disabled = (in_progress = Some (wf_id w)),
            onClick = Call_approveWorkflow (wf_id w) ''rejected'' \<rparr>]
      else [])"

definition create_button_App :: "dashboard \<Rightarrow> button" where
  "create_button_App ui =
     \<lparr> label = (if creating ui then ''Creating...'' else ''Create Workflow''),
       disabled = (creating ui \<or> trim (newRequest ui) = []),
       onClick = Call_createWorkflow \<rparr>"

definition buttons_App :: "dashboard \<Rightarrow> button list" where
  "buttons_App ui =
     (if loading ui then []
      else create_button_App ui
           # concat (map (\<lambda>w. decision_buttons_App w (actionInProgress ui)) (workflows ui)))"

definition click_App ::
  "button \<Rightarrow> error_body fetch_outcome \<Rightarrow> workflow list fetch_outcome \<Rightarrow> dashboard \<Rightarrow>
     http_request list \<times> dashboard" where
  "click_App b posted loaded ui =
     (if disabled b then ([], ui)
      else (case onClick b of
              Call_createWorkflow \<Rightarrow> createWorkflow_App posted loaded ui
            | Call_approveWorkflow ident decision \<Rightarrow>
                approveWorkflow_App ident decision posted loaded ui))"

section \<open>The timeline view\<close>

text \<open>
  An event as the timeline endpoint returns it. The payload \<open>event_data\<close> is any JSON value;
  its type is left open.
\<close>

record 'd event =
  event_type :: string
  created_at :: string
  event_data :: 'd

record 'd details =
  events :: "'d event list"
  details_loading :: bool
  details_error :: "string option"

definition WorkflowDetails_initial :: "'d details" where
  "WorkflowDetails_initial = \<lparr> events = [], details_loading = True, details_error = None \<rparr>"

definition loadEvents ::
  "string \<Rightarrow> 'd event list fetch_outcome \<Rightarrow> 'd details \<Rightarrow> http_request list \<times> 'd details" where
  "loadEvents ident outcome view =
     ([fetch_get (API_BASE @ ''/workflows/'' @ ident @ ''/events'')],
      (case outcome of
         Network_error msg \<Rightarrow> view\<lparr>details_error := Some msg, details_loading := False\<rparr>
       | Response res \<Rightarrow>
           if \<not> ok res then
             view\<lparr>details_error := Some ''Failed to load timeline'', details_loading := False\<rparr>
           else (case json res of
                   Inl msg \<Rightarrow> view\<lparr>details_error := Some msg, details_loading := False\<rparr>
                 | Inr data \<Rightarrow> view\<lparr>events := data, details_loading := False\<rparr>)))"

text \<open>
  One entry of the timeline. \<open>event.event_data && <pre>...</pre>\<close> is the \<open>pre\<close> block when
  the payload is truthy and the payload itself otherwise.
\<close>

datatype 'd data_block = Pre string | Bare 'd

record 'd entry =
  entry_key :: nat
  entry_title :: string
  entry_time :: string
  entry_data :: "'d data_block"

text \<open>
  The rendering depends on three functions of the runtime, taken as parameters: the date
  format of the browser's locale, \<open>JSON.stringify\<close> with indentation 2, and the truthiness
  of a payload.
\<close>

definition render_event ::
  "(string \<Rightarrow> string) \<Rightarrow> ('d \<Rightarrow> string) \<Rightarrow> ('d \<Rightarrow> bool) \<Rightarrow> 'd event \<Rightarrow> nat \<Rightarrow> 'd entry" where
  "render_event toLocaleString stringify is_truthy ev index =
     \<lparr> entry_key = index,
       entry_title = event_type ev,
       entry_time = toLocaleString (created_at ev),
       entry_data = (if is_truthy (event_data ev) then Pre (stringify (event_data ev))
                     else Bare (event_data ev)) \<rparr>"

text \<open>\<open>events.map((event, index) => ...)\<close>.\<close>

fun map_indexed :: "('a \<Rightarrow> nat \<Rightarrow> 'b) \<Rightarrow> nat \<Rightarrow> 'a list \<Rightarrow> 'b list" where
  "map_indexed f n [] = []"
| "map_indexed f n (x # xs) = f x n # map_indexed f (Suc n) xs"

record 'd details_page =
  show_loading :: bool
  show_error :: "string option"
  show_no_events :: bool
  timeline :: "'d entry list"

definition WorkflowDetails ::
  "(string \<Rightarrow> string) \<Rightarrow> ('d \<Rightarrow> string) \<Rightarrow> ('d \<Rightarrow> bool) \<Rightarrow> 'd details \<Rightarrow> 'd details_page" where
  "WorkflowDetails toLocaleString stringify is_truthy view =
     \<lparr> show_loading = details_loading view,
       show_error = (case details_error view of
                       None \<Rightarrow> None
                     | Some msg \<Rightarrow> if msg = [] then None else Some msg),
       show_no_events = (length (events view) = 0),
       timeline = map_indexed (render_event toLocaleString stringify is_truthy) 0 (events view) \<rparr>"

section \<open>The workflow core\<close>

text \<open>
  Modelled from the spec: the data model and the operations of the core (the WorkflowStore,
  the AI Analyzer, the Approval Gateway and the Action Executor), which run on the server
  and are not in the sources; the dashboard only calls them over HTTP. The states, the
  record with its event log and the seven edges are those of the design of the core.
\<close>

datatype wf_state =
    RECEIVED
  | AI_ANALYZED
  | WAITING_FOR_APPROVAL
  | ACTION_APPROVED
  | ACTION_EXECUTED
  | ACTION_FAILED
  | REJECTED
  | AI_FAILED


text \<open>The seven edges of the state machine.\<close>

definition edges :: "(wf_state \<times> wf_state) list" where
  "edges =
     [(RECEIVED, AI_ANALYZED),
      (AI_ANALYZED, WAITING_FOR_APPROVAL),
      (AI_ANALYZED, AI_FAILED),
      (WAITING_FOR_APPROVAL, REJECTED),
      (WAITING_FOR_APPROVAL, ACTION_APPROVED),
      (ACTION_APPROVED, ACTION_EXECUTED),
      (ACTION_APPROVED, ACTION_FAILED)]"

definition edge :: "wf_state \<Rightarrow> wf_state \<Rightarrow> bool" where
  "edge a b = ((a, b) \<in> set edges)"

text \<open>How far a state is from \<open>RECEIVED\<close>: the number of edges on the way to it.\<close>

fun rank :: "wf_state \<Rightarrow> nat" where
  "rank RECEIVED = 0"
| "rank AI_ANALYZED = 1"
| "rank WAITING_FOR_APPROVAL = 2"
| "rank AI_FAILED = 2"
| "rank ACTION_APPROVED = 3"
| "rank REJECTED = 3"
| "rank ACTION_EXECUTED = 4"
| "rank ACTION_FAILED = 4"

datatype decision = Approved | Rejected

datatype error =
    ValidationError
  | InvalidStateError
  | NotFoundError
  | StaleStateError
  | ProcessCrashed

record ai_output =
  intent :: string
  recommended_action :: string
  confidence :: rat

record human_decision =
  decision :: decision
  reviewer :: string
  reviewer_notes :: "string option"
  timestamp :: nat

text \<open>The fields a transition writes together with the new state.\<close>

datatype fields =
    No_fields
  | With_ai_output ai_output
  | With_human_decision human_decision
  | With_error string

record log_entry =
  log_type :: string
  log_at :: nat
  log_data :: fields

record workflow_record =
  ident :: nat
  state :: wf_state
  request_text :: utf16
  ai_output :: "ai_output option"
  human_decision :: "human_decision option"
  created :: nat
  updated :: nat
  event_log :: "log_entry list"

text \<open>
  The store keeps the records in insertion order and never deletes one; the identifier of a
  record is its position. \<open>clock\<close> stamps the writes. \<open>executor_log\<close> is not part of the
  store: it lists the invocations of the Action Executor, in order, with the record and the
  action each was made for.
\<close>

record system =
  records :: "workflow_record list"
  clock :: nat
  executor_log :: "(nat \<times> string option) list"

definition initial :: system where
  "initial = \<lparr> records = [], clock = 0, executor_log = [] \<rparr>"

definition get :: "nat \<Rightarrow> system \<Rightarrow> workflow_record option" where
  "get i s = (if i < length (records s) then Some (records s ! i) else None)"

text \<open>
  Modelled from the spec: \<open>create(text)\<close> of the WorkflowStore, which is not in the sources.
  It rejects empty and whitespace-only text with \<open>ValidationError\<close> and otherwise writes a
  new record in \<open>RECEIVED\<close> with an event \<open>created\<close>. The design does not say which
  characters count as whitespace on the server, so the test \<open>ws\<close> is a parameter.
\<close>

definition create :: "(16 word \<Rightarrow> bool) \<Rightarrow> utf16 \<Rightarrow> system \<Rightarrow> (error + nat) \<times> system" where
  "create ws text s =
     (if list_all ws text then (Inl ValidationError, s)
      else
        (Inr (length (records s)),
         s\<lparr>records := records s @
              [\<lparr> ident = length (records s), state = RECEIVED, request_text = text,
                  ai_output = None, human_decision = None,
                  created = clock s, updated = clock s,
                  event_log = [\<lparr> log_type = ''created'', log_at = clock s,
                                 log_data = No_fields \<rparr>] \<rparr>],
            clock := Suc (clock s)\<rparr>))"

fun apply_fields :: "fields \<Rightarrow> workflow_record \<Rightarrow> workflow_record" where
  "apply_fields No_fields r = r"
| "apply_fields (With_ai_output out) r = r\<lparr>ai_output := Some out\<rparr>"
| "apply_fields (With_human_decision dec) r = r\<lparr>human_decision := Some dec\<rparr>"
| "apply_fields (With_error _) r = r"

text \<open>
  Modelled from the spec: \<open>transition(id, expected_state, new_state, fields)\<close> of the
  WorkflowStore, which is not in the sources. A conditional write: it succeeds only if the
  record has the expected state, and then writes the state, the fields and the event
  together; otherwise it fails with \<open>StaleStateError\<close> and changes nothing.
\<close>

definition transition ::
  "nat \<Rightarrow> wf_state \<Rightarrow> wf_state \<Rightarrow> fields \<Rightarrow> string \<Rightarrow> system \<Rightarrow> error + system" where
  "transition i expected new fs ev s =
     (case get i s of
        None \<Rightarrow> Inl NotFoundError
      | Some r \<Rightarrow>
          if state r = expected then
            Inr (s\<lparr>records := (records s)
                      [i := (apply_fields fs r)
                              \<lparr>state := new, updated := clock s,
                               event_log := event_log r @
                                 [\<lparr> log_type = ev, log_at = clock s, log_data = fs \<rparr>]\<rparr>],
                    clock := Suc (clock s)\<rparr>)
          else Inl StaleStateError)"

text \<open>
  Modelled from the spec: the conditional writes that the analyzer, the approval gateway and
  the recovery issue, which are not in the sources. Each is one call of \<open>transition\<close>.
\<close>

datatype store_write =
    Claim nat
  | Analyzed nat ai_output
  | AI_failed nat string
  | Reject nat human_decision
  | Approve nat human_decision
  | Executed nat
  | Failed nat string

fun perform :: "store_write \<Rightarrow> system \<Rightarrow> error + system" where
  "perform (Claim i) s = transition i RECEIVED AI_ANALYZED No_fields ''claimed'' s"
| "perform (Analyzed i out) s =
     transition i AI_ANALYZED WAITING_FOR_APPROVAL (With_ai_output out) ''analyzed'' s"
| "perform (AI_failed i raw) s =
     transition i AI_ANALYZED AI_FAILED (With_error raw) ''ai_failed'' s"
| "perform (Reject i dec) s =
     transition i WAITING_FOR_APPROVAL REJECTED (With_human_decision dec) ''rejected'' s"
| "perform (Approve i dec) s =
     transition i WAITING_FOR_APPROVAL ACTION_APPROVED (With_human_decision dec) ''approved'' s"
| "perform (Executed i) s =
     transition i ACTION_APPROVED ACTION_EXECUTED No_fields ''executed'' s"
| "perform (Failed i err) s =
     transition i ACTION_APPROVED ACTION_FAILED (With_error err) ''action_failed'' s"

text \<open>A write that fails leaves the store as it was.\<close>

definition after_write :: "store_write \<Rightarrow> system \<Rightarrow> system" where
  "after_write w s = (case perform w s of Inl _ \<Rightarrow> s | Inr s' \<Rightarrow> s')"

text \<open>
  Modelled from the spec: the AI Analyzer, which is not in the sources, at the grain of its
  store writes. The answer of the AI capability, already parsed and validated, is an input:
  a valid recommendation, a schema violation with the raw text, a transport failure after
  the retries, or the death of the worker after its claim.
\<close>

datatype ai_result =
    Valid_output ai_output
  | Invalid_output string
  | AI_unavailable string
  | Analyzer_crashed

definition settled :: "error + system \<Rightarrow> system \<Rightarrow> error option \<times> system" where
  "settled res s = (case res of Inl e \<Rightarrow> (Some e, s) | Inr s' \<Rightarrow> (None, s'))"

definition analyze :: "nat \<Rightarrow> ai_result \<Rightarrow> system \<Rightarrow> error option \<times> system" where
  "analyze i res s =
     (case perform (Claim i) s of
        Inl e \<Rightarrow> (Some e, s)
      | Inr s1 \<Rightarrow>
          (case res of
             Valid_output out \<Rightarrow> settled (perform (Analyzed i out) s1) s1
           | Invalid_output raw \<Rightarrow> settled (perform (AI_failed i raw) s1) s1
           | AI_unavailable raw \<Rightarrow> settled (perform (AI_failed i raw) s1) s1
           | Analyzer_crashed \<Rightarrow> (Some ProcessCrashed, s1)))"

text \<open>
  Modelled from the spec: the Action Executor, which is not in the sources. Its outcome is
  an input of \<open>decide\<close>; the process may also die before or after the dispatch.
\<close>

datatype executor_result =
    Executor_ok
  | Executor_failed string
  | Crash_before_dispatch
  | Crash_after_dispatch

definition execute :: "nat \<Rightarrow> system \<Rightarrow> system" where
  "execute i s =
     s\<lparr>executor_log := executor_log s @
          [(i, (case get i s of
                  None \<Rightarrow> None
                | Some r \<Rightarrow> map_option recommended_action (ai_output r)))]\<rparr>"

definition resolved :: "nat \<Rightarrow> error + system \<Rightarrow> system \<Rightarrow> (error + workflow_record) \<times> system" where
  "resolved i res s =
     (case res of Inl e \<Rightarrow> (Inl e, s) | Inr s' \<Rightarrow> (Inr (records s' ! i), s'))"

text \<open>
  Modelled from the spec: \<open>decide(id, decision, reviewer, notes?)\<close> of the Approval Gateway,
  which is not in the sources. The record must be in \<open>WAITING_FOR_APPROVAL\<close>, otherwise
  \<open>InvalidStateError\<close> and no change. A rejection is one transition. An approval first
  records the decision (\<open>ACTION_APPROVED\<close>), then invokes the executor, then records the
  outcome.
\<close>

definition decide ::
  "nat \<Rightarrow> decision \<Rightarrow> string \<Rightarrow> string option \<Rightarrow> executor_result \<Rightarrow> system \<Rightarrow>
     (error + workflow_record) \<times> system" where
  "decide i d who note exec s =
     (case get i s of
        None \<Rightarrow> (Inl NotFoundError, s)
      | Some r \<Rightarrow>
          if state r \<noteq> WAITING_FOR_APPROVAL then (Inl InvalidStateError, s)
          else
            let dec = \<lparr> decision = d, reviewer = who, reviewer_notes = note,
                        timestamp = clock s \<rparr>
            in (case d of
                  Rejected \<Rightarrow>
                    (case perform (Reject i dec) s of
                       Inl _ \<Rightarrow> (Inl InvalidStateError, s)
                     | Inr s1 \<Rightarrow> (Inr (records s1 ! i), s1))
                | Approved \<Rightarrow>
                    (case perform (Approve i dec) s of
                       Inl _ \<Rightarrow> (Inl InvalidStateError, s)
                     | Inr s1 \<Rightarrow>
                         (case exec of
                            Executor_ok \<Rightarrow>
                              resolved i (perform (Executed i) (execute i s1)) (execute i s1)
                          | Executor_failed err \<Rightarrow>
                              resolved i (perform (Failed i err) (execute i s1)) (execute i s1)
                          | Crash_before_dispatch \<Rightarrow> (Inl ProcessCrashed, s1)
                          | Crash_after_dispatch \<Rightarrow> (Inl ProcessCrashed, execute i s1)))))"

text \<open>
  Modelled from the spec: the recovery of a record stuck in \<open>ACTION_APPROVED\<close>, which is not
  in the sources. It resolves the record to \<open>ACTION_FAILED\<close> and does not call the executor.
\<close>

definition recover :: "nat \<Rightarrow> system \<Rightarrow> error option \<times> system" where
  "recover i s = settled (perform (Failed i ''recovered'') s) s"

text \<open>The operations of the core, and a run of them from a store.\<close>

datatype operation =
    Create utf16
  | Analyze nat ai_result
  | Decide nat decision string "string option" executor_result
  | Recover nat

fun step :: "(16 word \<Rightarrow> bool) \<Rightarrow> operation \<Rightarrow> system \<Rightarrow> system" where
  "step ws (Create text) s = snd (create ws text s)"
| "step ws (Analyze i res) s = snd (analyze i res s)"
| "step ws (Decide i d who note exec) s = snd (decide i d who note exec s)"
| "step ws (Recover i) s = snd (recover i s)"

definition run :: "(16 word \<Rightarrow> bool) \<Rightarrow> operation list \<Rightarrow> system \<Rightarrow> system" where
  "run ws ops s = foldl (\<lambda>s' oper. step ws oper s') s ops"

text \<open>How often the executor was invoked for a record.\<close>

definition invocations :: "nat \<Rightarrow> system \<Rightarrow> nat" where
  "invocations i s = count_list (map fst (executor_log s)) i"


text \<open>
  The steps that change the system: the insertion of a record by \<open>create\<close>, one conditional
  write, and one invocation of the executor. Every operation is made of these.
\<close>

datatype atom = Insert utf16 | Write store_write | Invoke nat

fun apply_atom :: "(16 word \<Rightarrow> bool) \<Rightarrow> atom \<Rightarrow> system \<Rightarrow> system" where
  "apply_atom ws (Insert t) s = snd (create ws t s)"
| "apply_atom ws (Write w) s = after_write w s"
| "apply_atom ws (Invoke i) s = execute i s"

definition atoms :: "(16 word \<Rightarrow> bool) \<Rightarrow> atom list \<Rightarrow> system \<Rightarrow> system" where
  "atoms ws as s = foldl (\<lambda>s' a. apply_atom ws a s') s as"

section \<open>Decisions in flight\<close>

text \<open>
  Modelled from the spec: a call of \<open>decide\<close> of the Approval Gateway, which is not in the
  sources, taken apart into the steps between which another call may run: the check of the
  precondition, the conditional write of the decision, the invocation of the executor, and
  the conditional write of the outcome. The store is the only thing the calls share, and
  each conditional write is atomic.
\<close>

datatype phase =
    Checking
  | Writing
  | Dispatching
  | Resolving
  | Finished "error + workflow_record"

record call =
  call_id :: nat
  call_decision :: decision
  call_reviewer :: string
  call_notes :: "string option"
  call_executor :: executor_result
  call_phase :: phase

definition new_call ::
  "nat \<Rightarrow> decision \<Rightarrow> string \<Rightarrow> string option \<Rightarrow> executor_result \<Rightarrow> call" where
  "new_call i d who note exec =
     \<lparr> call_id = i, call_decision = d, call_reviewer = who, call_notes = note,
       call_executor = exec, call_phase = Checking \<rparr>"

definition finish :: "call \<Rightarrow> (error + workflow_record) \<times> system \<Rightarrow> call \<times> system" where
  "finish c out = (c\<lparr>call_phase := Finished (fst out)\<rparr>, snd out)"

definition advance :: "call \<Rightarrow> system \<Rightarrow> call \<times> system" where
  "advance c s =
     (case call_phase c of
        Checking \<Rightarrow>
          (case get (call_id c) s of
             None \<Rightarrow> finish c (Inl NotFoundError, s)
           | Some r \<Rightarrow>
               if state r \<noteq> WAITING_FOR_APPROVAL then finish c (Inl InvalidStateError, s)
               else (c\<lparr>call_phase := Writing\<rparr>, s))
      | Writing \<Rightarrow>
          (let dec = \<lparr> decision = call_decision c, reviewer = call_reviewer c,
                       reviewer_notes = call_notes c, timestamp = clock s \<rparr>
           in (case call_decision c of
                 Rejected \<Rightarrow>
                   (case perform (Reject (call_id c) dec) s of
                      Inl _ \<Rightarrow> finish c (Inl InvalidStateError, s)
                    | Inr s1 \<Rightarrow> finish c (Inr (records s1 ! call_id c), s1))
               | Approved \<Rightarrow>
                   (case perform (Approve (call_id c) dec) s of
                      Inl _ \<Rightarrow> finish c (Inl InvalidStateError, s)
                    | Inr s1 \<Rightarrow> (c\<lparr>call_phase := Dispatching\<rparr>, s1))))
      | Dispatching \<Rightarrow>
          (case call_executor c of
             Executor_ok \<Rightarrow> (c\<lparr>call_phase := Resolving\<rparr>, execute (call_id c) s)
           | Executor_failed _ \<Rightarrow> (c\<lparr>call_phase := Resolving\<rparr>, execute (call_id c) s)
           | Crash_before_dispatch \<Rightarrow> finish c (Inl ProcessCrashed, s)
           | Crash_after_dispatch \<Rightarrow> finish c (Inl ProcessCrashed, execute (call_id c) s))
      | Resolving \<Rightarrow>
          (case call_executor c of
             Executor_ok \<Rightarrow> finish c (resolved (call_id c) (perform (Executed (call_id c)) s) s)
           | Executor_failed err \<Rightarrow>
               finish c (resolved (call_id c) (perform (Failed (call_id c) err) s) s)
           | Crash_before_dispatch \<Rightarrow> finish c (Inl ProcessCrashed, s)
           | Crash_after_dispatch \<Rightarrow> finish c (Inl ProcessCrashed, s))
      | Finished _ \<Rightarrow> (c, s))"

text \<open>
  Two calls in flight. A schedule says, step by step, which of the two runs next
  (\<open>True\<close> for the first).
\<close>

fun interleave :: "bool list \<Rightarrow> call \<times> call \<times> system \<Rightarrow> call \<times> call \<times> system" where
  "interleave [] cfg = cfg"
| "interleave (first # sched) (c1, c2, s) =
     (if first then (case advance c1 s of (c1', s') \<Rightarrow> interleave sched (c1', c2, s'))
      else (case advance c2 s of (c2', s') \<Rightarrow> interleave sched (c1, c2', s')))"

definition finished :: "call \<Rightarrow> bool" where
  "finished c = (case call_phase c of Finished _ \<Rightarrow> True | _ \<Rightarrow> False)"

definition crashes :: "executor_result \<Rightarrow> bool" where
  "crashes exec = (exec = Crash_before_dispatch \<or> exec = Crash_after_dispatch)"

text \<open>A call that has come back with a record in a terminal state.\<close>

definition succeeded :: "call \<Rightarrow> bool" where
  "succeeded c =
     (case call_phase c of
        Finished (Inr r) \<Rightarrow> state r = REJECTED \<or> state r = ACTION_EXECUTED \<or> state r = ACTION_FAILED
      | _ \<Rightarrow> False)"

definition refused :: "call \<Rightarrow> bool" where
  "refused c = (call_phase c = Finished (Inl InvalidStateError))"

text \<open>
  The invariant of two calls racing for the record \<open>i\<close>: either the record still waits and
  neither call has written, or one call leads (its write went through) and the other
  trails (it has not written, or has been refused).
\<close>

definition pending :: "call \<Rightarrow> bool" where
  "pending c = (call_phase c = Checking \<or> call_phase c = Writing)"

definition leading :: "nat \<Rightarrow> call \<Rightarrow> system \<Rightarrow> bool" where
  "leading i c s =
     (case call_phase c of
        Dispatching \<Rightarrow> map_option state (get i s) = Some ACTION_APPROVED
      | Resolving \<Rightarrow> map_option state (get i s) = Some ACTION_APPROVED
      | Finished (Inr r) \<Rightarrow>
          get i s = Some r
          \<and> (state r = REJECTED \<or> state r = ACTION_EXECUTED \<or> state r = ACTION_FAILED)
      | _ \<Rightarrow> False)"

definition trailing :: "call \<Rightarrow> bool" where
  "trailing c = (pending c \<or> refused c)"

definition raced :: "nat \<Rightarrow> call \<Rightarrow> call \<Rightarrow> system \<Rightarrow> bool" where
  "raced i c1 c2 s =
     ((map_option state (get i s) = Some WAITING_FOR_APPROVAL \<and> pending c1 \<and> pending c2)
      \<or> (leading i c1 s \<and> trailing c2)
      \<or> (leading i c2 s \<and> trailing c1))"

text \<open>The number of steps a call has left at most.\<close>

fun remaining :: "phase \<Rightarrow> nat" where
  "remaining Checking = 4"
| "remaining Writing = 3"
| "remaining Dispatching = 2"
| "remaining Resolving = 1"
| "remaining (Finished _) = 0"

declare perform.simps [simp del]

section \<open>The gate in front of the executor\<close>


section \<open>A concrete scenario\<close>

text \<open>
  The request ``Follow up with ABC Corp about pricing'' is analyzed to \<open>send_email\<close> with
  confidence 0.82, approved and executed; a second decision on it is refused; a second
  request is analyzed and rejected.
\<close>

definition scenario_text :: utf16 where
  "scenario_text =
     [0x46, 0x6F, 0x6C, 0x6C, 0x6F, 0x77, 0x20, 0x75, 0x70, 0x20, 0x77, 0x69, 0x74, 0x68, 0x20,
      0x41, 0x42, 0x43, 0x20, 0x43, 0x6F, 0x72, 0x70, 0x20, 0x61, 0x62, 0x6F, 0x75, 0x74, 0x20,
      0x70, 0x72, 0x69, 0x63, 0x69, 0x6E, 0x67]"

definition scenario_output :: ai_output where
  "scenario_output =
     \<lparr> intent = ''follow up on pricing'', recommended_action = ''send_email'',
       confidence = 82 / 100 \<rparr>"

definition scenario_ops :: "operation list" where
  "scenario_ops =
     [Create scenario_text,
      Analyze 0 (Valid_output scenario_output),
      Decide 0 Approved ''r@x.com'' None Executor_ok,
      Decide 0 Rejected ''r@x.com'' None Executor_ok,
      Create scenario_text,
      Analyze 1 (Valid_output scenario_output),
      Decide 1 Rejected ''r@x.com'' (Some ''not now'') Executor_ok]"

text \<open>The store after the first request has been analyzed.\<close>

definition scenario_waiting :: system where
  "scenario_waiting = run is_white_space (take 2 scenario_ops) initial"

text \<open>A dashboard that shows one workflow awaiting approval, with a blank text area.\<close>

definition scenario_workflow :: workflow where
  "scenario_workflow =
     \<lparr> wf_id = ''7'', wf_request_text = scenario_text,
       wf_state = ''WAITING_FOR_APPROVAL'', wf_created_at = ''2026-01-01T00:00:00'' \<rparr>"

definition scenario_dashboard :: dashboard where
  "scenario_dashboard =
     \<lparr> workflows = [scenario_workflow],
       loading = False, error = None, newRequest = [0x20, 0x09, 0xA0], creating = False,
       actionInProgress = None \<rparr>"

section \<open>Properties of StatusBadge\<close>

lemma truthy_color_WorkflowList:
  "map_of colors_WorkflowList k = Some v \<Longrightarrow> truthy v"
  by (auto simp: colors_WorkflowList_def split: if_splits)

lemma truthy_color_App:
  "map_of colors_App k = Some v \<Longrightarrow> truthy v"
  by (auto simp: colors_App_def split: if_splits)

lemma color_is_string_WorkflowList:
  "map_of colors_WorkflowList k = Some v \<Longrightarrow> \<exists>c. v = JString c \<and> c \<noteq> []"
  by (auto simp: colors_WorkflowList_def split: if_splits)

lemma color_is_string_App:
  "map_of colors_App k = Some v \<Longrightarrow> \<exists>c. v = JString c \<and> c \<noteq> []"
  by (auto simp: colors_App_def split: if_splits)

text \<open>
  Claim C9 says that \<open>StatusBadge\<close> falls back to the neutral \<open>#e5e7eb\<close> for every state
  that is not in its color map. The code attempts that with \<open>colors[state] || "#e5e7eb"\<close>,
  but the lookup follows the prototype chain: the state \<open>constructor\<close> is not in the color
  map of either variant, yet is found on \<open>Object.prototype\<close>; the value found is a
  function, which is truthy, so the fallback is not taken and the background is not a
  color.
\<close>

theorem StatusBadge_constructor_not_neutral:
  "map_of colors_App ''constructor'' = None
   \<and> map_of colors_WorkflowList ''constructor'' = None
   \<and> backgroundColor (StatusBadge_App ''constructor'') = JFunction ''Object''
   \<and> backgroundColor (StatusBadge_WorkflowList ''constructor'') = JFunction ''Object''
   \<and> backgroundColor (StatusBadge_App ''constructor'') \<noteq> JString ''#e5e7eb''"
  by (simp add: StatusBadge_App_def StatusBadge_WorkflowList_def get_property_def js_or_def
      colors_App_def colors_WorkflowList_def Object_prototype_def)

text \<open>
  For every state string that is not the name of a property of \<open>Object.prototype\<close>, the
  fallback works: both variants render a background that is a non-empty color string, the
  color of the state in the variant's table, and the neutral \<open>#e5e7eb\<close> for any state
  that is not in the table.
\<close>

lemma StatusBadge_fallback:
  assumes "map_of Object_prototype st = None"
  shows "backgroundColor (StatusBadge_WorkflowList st) =
           (case map_of colors_WorkflowList st of
              None \<Rightarrow> JString ''#e5e7eb'' | Some c \<Rightarrow> c)
       \<and> backgroundColor (StatusBadge_App st) =
           (case map_of colors_App st of
              None \<Rightarrow> JString ''#e5e7eb'' | Some c \<Rightarrow> c)
       \<and> (\<exists>c. backgroundColor (StatusBadge_WorkflowList st) = JString c \<and> c \<noteq> [])
       \<and> (\<exists>c. backgroundColor (StatusBadge_App st) = JString c \<and> c \<noteq> [])"
proof -
  have list_color: "backgroundColor (StatusBadge_WorkflowList st) =
      (case map_of colors_WorkflowList st of None \<Rightarrow> JString ''#e5e7eb'' | Some c \<Rightarrow> c)"
    using assms truthy_color_WorkflowList[of st]
    by (auto simp: StatusBadge_WorkflowList_def get_property_def js_or_def split: option.splits)
  have app_color: "backgroundColor (StatusBadge_App st) =
      (case map_of colors_App st of None \<Rightarrow> JString ''#e5e7eb'' | Some c \<Rightarrow> c)"
    using assms truthy_color_App[of st]
    by (auto simp: StatusBadge_App_def get_property_def js_or_def split: option.splits)
  show ?thesis
    using list_color app_color color_is_string_WorkflowList[of st]
      color_is_string_App[of st]
    by (auto split: option.splits)
qed

lemma StatusBadge_fallback_example:
  "map_of Object_prototype ''ARCHIVED'' = None
   \<and> backgroundColor (StatusBadge_WorkflowList ''ARCHIVED'') = JString ''#e5e7eb''
   \<and> backgroundColor (StatusBadge_App ''ARCHIVED'') = JString ''#e5e7eb''
   \<and> backgroundColor (StatusBadge_WorkflowList ''REJECTED'') = JString ''#ef4444''"
  using StatusBadge_fallback[of "''ARCHIVED''"] StatusBadge_fallback[of "''REJECTED''"]
  by (simp add: Object_prototype_def colors_App_def colors_WorkflowList_def)

text \<open>
  Claim C10 says that the two variants of \<open>StatusBadge\<close> give every one of the eight states
  the same background. The table of the single-page dashboard has no entry for
  \<open>ACTION_FAILED\<close> (nor for \<open>ACTION_APPROVED\<close>), which the table of the workflow list
  has: on \<open>ACTION_FAILED\<close> the list renders \<open>#991b1b\<close> and the single-page dashboard
  falls back to \<open>#e5e7eb\<close>.
\<close>

theorem StatusBadge_variants_differ:
  "backgroundColor (StatusBadge_WorkflowList ''ACTION_FAILED'') = JString ''#991b1b''
   \<and> backgroundColor (StatusBadge_App ''ACTION_FAILED'') = JString ''#e5e7eb''
   \<and> backgroundColor (StatusBadge_WorkflowList ''ACTION_APPROVED'') = JString ''#6366f1''
   \<and> backgroundColor (StatusBadge_App ''ACTION_APPROVED'') = JString ''#e5e7eb''
   \<and> ''ACTION_FAILED'' \<in> set state_names \<and> ''ACTION_APPROVED'' \<in> set state_names"
  by (simp add: StatusBadge_App_def StatusBadge_WorkflowList_def get_property_def js_or_def
      colors_App_def colors_WorkflowList_def Object_prototype_def state_names_def)

text \<open>On the other six states the two variants agree.\<close>

lemma StatusBadge_variants_agree:
  "st \<in> {''RECEIVED'', ''AI_ANALYZED'', ''WAITING_FOR_APPROVAL'', ''ACTION_EXECUTED'',
            ''REJECTED'', ''AI_FAILED''}
   \<Longrightarrow> backgroundColor (StatusBadge_WorkflowList st) = backgroundColor (StatusBadge_App st)"
  by (auto simp: StatusBadge_App_def StatusBadge_WorkflowList_def get_property_def js_or_def
      colors_App_def colors_WorkflowList_def)

section \<open>Properties of the timeline view\<close>

text \<open>
  Claim C7: loading the timeline of any workflow issues exactly one request, a GET of the
  events of that workflow, whatever the server answers; it issues no request with a body
  and none with another method, so it mutates neither the record nor its event log.
\<close>

theorem timeline_load_is_read_only:
  "fst (loadEvents wid outcome view) =
     [fetch_get (API_BASE @ ''/workflows/'' @ wid @ ''/events'')]
   \<and> list_all (\<lambda>r. http_method r = GET \<and> body r = None) (fst (loadEvents wid outcome view))"
  by (simp add: loadEvents_def fetch_get_def)

lemma map_indexed_key:
  "map entry_key (map_indexed (render_event f g t) n xs) = [n..<n + length xs]"
  by (induction xs arbitrary: n) (auto simp: render_event_def upt_rec)

lemma map_indexed_field:
  assumes "\<And>x n. sel (f x n) = h x"
  shows "map sel (map_indexed f n xs) = map h xs"
  by (induction xs arbitrary: n) (auto simp: assms)

lemma timeline_loaded:
  "timeline (WorkflowDetails fmt str tr
      (snd (loadEvents wid (Response \<lparr> ok = True, json = Inr evs \<rparr>) view)))
   = map_indexed (render_event fmt str tr) 0 evs"
  by (simp add: WorkflowDetails_def loadEvents_def)

text \<open>
  Claim C8: when the timeline endpoint answers with a sequence of events, the view shows
  one entry per event, in the order received: the titles are the event types in order, the
  times are the formatted creation times in order, the data blocks are those of the events
  in order, and the keys count the positions from 0. Nothing is dropped, duplicated or
  reordered.
\<close>

theorem timeline_shows_events_in_order:
  "map entry_title (timeline (WorkflowDetails fmt str tr
      (snd (loadEvents wid (Response \<lparr> ok = True, json = Inr evs \<rparr>) view))))
     = map event_type evs
   \<and> map entry_time (timeline (WorkflowDetails fmt str tr
      (snd (loadEvents wid (Response \<lparr> ok = True, json = Inr evs \<rparr>) view))))
     = map (\<lambda>e. fmt (created_at e)) evs
   \<and> map entry_data (timeline (WorkflowDetails fmt str tr
      (snd (loadEvents wid (Response \<lparr> ok = True, json = Inr evs \<rparr>) view))))
     = map (\<lambda>e. if tr (event_data e) then Pre (str (event_data e)) else Bare (event_data e)) evs
   \<and> map entry_key (timeline (WorkflowDetails fmt str tr
      (snd (loadEvents wid (Response \<lparr> ok = True, json = Inr evs \<rparr>) view))))
     = [0..<length evs]
   \<and> length (timeline (WorkflowDetails fmt str tr
      (snd (loadEvents wid (Response \<lparr> ok = True, json = Inr evs \<rparr>) view))))
     = length evs"
proof -
  have len: "length (map_indexed (render_event fmt str tr) 0 evs) = length evs"
    using map_indexed_key[of fmt str tr 0 evs, THEN arg_cong, of length] by simp
  have title: "map entry_title (map_indexed (render_event fmt str tr) 0 evs) = map event_type evs"
    by (rule map_indexed_field) (simp add: render_event_def)
  have time: "map entry_time (map_indexed (render_event fmt str tr) 0 evs)
      = map (\<lambda>e. fmt (created_at e)) evs"
    by (rule map_indexed_field) (simp add: render_event_def)
  have data: "map entry_data (map_indexed (render_event fmt str tr) 0 evs)
      = map (\<lambda>e. if tr (event_data e) then Pre (str (event_data e)) else Bare (event_data e)) evs"
    by (rule map_indexed_field) (simp add: render_event_def)
  show ?thesis
    unfolding timeline_loaded
    using len title time data map_indexed_key[of fmt str tr 0 evs] by simp
qed

section \<open>Properties of the dashboard\<close>

lemma trim_blank:
  assumes "list_all is_white_space s"
  shows "trim s = []"
proof -
  have blank: "dropWhile is_white_space s = []"
    using assms by (simp add: list_all_iff)
  show ?thesis
    by (simp only: trim_def blank rev.simps dropWhile.simps)
qed

lemma scenario_text_not_blank: "\<not> list_all is_white_space scenario_text"
  by (simp add: scenario_text_def is_white_space_def)

lemma requests_WorkflowList:
  assumes "b \<in> set (buttons_WorkflowList ui)"
    and "r \<in> set (fst (click_WorkflowList b posted loaded ui))"
  shows "r = \<lparr> http_method = GET, url = API_BASE @ ''/workflows'', content_type = None,
               body = None \<rparr>
       \<or> r = \<lparr> http_method = POST, url = API_BASE @ ''/workflows'',
               content_type = Some ''application/json'',
               body = Some (Create_body (newRequest ui)) \<rparr>
       \<or> (\<exists>w d. w \<in> set (workflows ui) \<and> wf_state w = ''WAITING_FOR_APPROVAL''
              \<and> (d = ''approved'' \<or> d = ''rejected'')
              \<and> r = \<lparr> http_method = POST,
                      url = API_BASE @ ''/workflows/'' @ wf_id w @ ''/approve'',
                      content_type = Some ''application/json'',
                      body = Some (Decide_body d ''user@company.com'' None) \<rparr>)"
  using assms
  by (auto simp: buttons_WorkflowList_def create_button_WorkflowList_def
      decision_buttons_WorkflowList_def click_WorkflowList_def createWorkflow_WorkflowList_def
      approveWorkflow_WorkflowList_def Let_def fetch_post_def fetch_get_def
      loadWorkflows_WorkflowList_def
      split: if_splits fetch_outcome.splits prod.splits)

lemma requests_App:
  assumes "b \<in> set (buttons_App ui)"
    and "r \<in> set (fst (click_App b posted loaded ui))"
  shows "r = \<lparr> http_method = GET, url = API_BASE @ ''/workflows'', content_type = None,
               body = None \<rparr>
       \<or> r = \<lparr> http_method = POST, url = API_BASE @ ''/workflows'',
               content_type = Some ''application/json'',
               body = Some (Create_body (trim (newRequest ui))) \<rparr>
       \<or> (\<exists>w. w \<in> set (workflows ui) \<and> wf_state w = ''WAITING_FOR_APPROVAL''
              \<and> (r = \<lparr> http_method = POST,
                       url = API_BASE @ ''/workflows/'' @ wf_id w @ ''/approve'',
                       content_type = Some ''application/json'',
                       body = Some (Decide_body ''approved'' ''user@company.com''
                                      (Some ''Approved via UI'')) \<rparr>
                 \<or> r = \<lparr> http_method = POST,
                       url = API_BASE @ ''/workflows/'' @ wf_id w @ ''/approve'',
                       content_type = Some ''application/json'',
                       body = Some (Decide_body ''rejected'' ''user@company.com''
                                      (Some ''Rejected via UI'')) \<rparr>))"
  using assms
  by (auto simp: buttons_App_def create_button_App_def decision_buttons_App_def
      click_App_def createWorkflow_App_def approveWorkflow_App_def Let_def
      fetch_post_def fetch_get_def loadWorkflows_App_def
      split: if_splits fetch_outcome.splits prod.splits sum.splits error_body.splits)

lemma button_request_WorkflowList:
  assumes "b \<in> set (decision_buttons_WorkflowList w aip)" and "\<not> disabled b"
  shows "\<exists>rest. fst (click_WorkflowList b posted loaded ui) =
          \<lparr> http_method = POST,
            url = API_BASE @ ''/workflows/'' @ wf_id w @ ''/approve'',
            content_type = Some ''application/json'',
            body = Some (Decide_body (if label b = ''Approve'' then ''approved'' else ''rejected'')
                          ''user@company.com'' None) \<rparr> # rest
        \<and> list_all (\<lambda>q. q = \<lparr> http_method = GET, url = API_BASE @ ''/workflows'',
                               content_type = None, body = None \<rparr>) rest"
  using assms
  by (auto simp: decision_buttons_WorkflowList_def click_WorkflowList_def
      approveWorkflow_WorkflowList_def Let_def fetch_post_def fetch_get_def
      loadWorkflows_WorkflowList_def
      split: if_splits fetch_outcome.splits prod.splits)

lemma button_request_App:
  assumes "b \<in> set (decision_buttons_App w aip)" and "\<not> disabled b"
  shows "\<exists>rest. fst (click_App b posted loaded ui) =
          \<lparr> http_method = POST,
            url = API_BASE @ ''/workflows/'' @ wf_id w @ ''/approve'',
            content_type = Some ''application/json'',
            body = Some (Decide_body (if label b = ''Approve'' then ''approved'' else ''rejected'')
                          ''user@company.com''
                          (Some (if label b = ''Approve'' then ''Approved via UI''
                                 else ''Rejected via UI''))) \<rparr> # rest
        \<and> list_all (\<lambda>q. q = \<lparr> http_method = GET, url = API_BASE @ ''/workflows'',
                               content_type = None, body = None \<rparr>) rest"
  using assms
  by (auto simp: decision_buttons_App_def click_App_def
      approveWorkflow_App_def Let_def fetch_post_def fetch_get_def
      loadWorkflows_App_def
      split: if_splits fetch_outcome.splits prod.splits sum.splits error_body.splits)

text \<open>
  Claim C6: a click on an enabled Approve or Reject button issues, first, a POST to
  \<open>/workflows/{id}/approve\<close> of the workflow of the button, with the JSON body
  \<open>{decision, reviewer, notes?}\<close> in which the decision is \<open>approved\<close> for Approve and
  \<open>rejected\<close> for Reject and the reviewer is the non-empty \<open>user@company.com\<close>; the
  workflow list sends no notes, the single-page dashboard sends \<open>Approved via UI\<close> or
  \<open>Rejected via UI\<close>; whatever follows is the reload of the list. And every request that a
  click on any button of the dashboard issues is that reload, the creation of a workflow,
  or such a decide request for a workflow awaiting approval; no other request is sent to
  the decide endpoint.
\<close>

theorem decide_requests_conform:
  "(b \<in> set (decision_buttons_WorkflowList w aip) \<and> \<not> disabled b \<longrightarrow>
      (\<exists>rest. fst (click_WorkflowList b posted loaded ui) =
          \<lparr> http_method = POST,
            url = API_BASE @ ''/workflows/'' @ wf_id w @ ''/approve'',
            content_type = Some ''application/json'',
            body = Some (Decide_body (if label b = ''Approve'' then ''approved'' else ''rejected'')
                          ''user@company.com'' None) \<rparr> # rest
        \<and> list_all (\<lambda>q. q = \<lparr> http_method = GET, url = API_BASE @ ''/workflows'',
                               content_type = None, body = None \<rparr>) rest))
   \<and> (b \<in> set (decision_buttons_App w aip) \<and> \<not> disabled b \<longrightarrow>
      (\<exists>rest. fst (click_App b posted' loaded ui) =
          \<lparr> http_method = POST,
            url = API_BASE @ ''/workflows/'' @ wf_id w @ ''/approve'',
            content_type = Some ''application/json'',
            body = Some (Decide_body (if label b = ''Approve'' then ''approved'' else ''rejected'')
                          ''user@company.com''
                          (Some (if label b = ''Approve'' then ''Approved via UI''
                                 else ''Rejected via UI''))) \<rparr> # rest
        \<and> list_all (\<lambda>q. q = \<lparr> http_method = GET, url = API_BASE @ ''/workflows'',
                               content_type = None, body = None \<rparr>) rest))
   \<and> (b \<in> set (buttons_WorkflowList ui)
        \<and> r \<in> set (fst (click_WorkflowList b posted loaded ui)) \<longrightarrow>
       r = \<lparr> http_method = GET, url = API_BASE @ ''/workflows'', content_type = None,
               body = None \<rparr>
       \<or> r = \<lparr> http_method = POST, url = API_BASE @ ''/workflows'',
               content_type = Some ''application/json'',
               body = Some (Create_body (newRequest ui)) \<rparr>
       \<or> (\<exists>w d. w \<in> set (workflows ui) \<and> wf_state w = ''WAITING_FOR_APPROVAL''
              \<and> (d = ''approved'' \<or> d = ''rejected'')
              \<and> r = \<lparr> http_method = POST,
                      url = API_BASE @ ''/workflows/'' @ wf_id w @ ''/approve'',
                      content_type = Some ''application/json'',
                      body = Some (Decide_body d ''user@company.com'' None) \<rparr>))
   \<and> (b \<in> set (buttons_App ui)
        \<and> r \<in> set (fst (click_App b posted' loaded ui)) \<longrightarrow>
       r = \<lparr> http_method = GET, url = API_BASE @ ''/workflows'', content_type = None,
               body = None \<rparr>
       \<or> r = \<lparr> http_method = POST, url = API_BASE @ ''/workflows'',
               content_type = Some ''application/json'',
               body = Some (Create_body (trim (newRequest ui))) \<rparr>
       \<or> (\<exists>w. w \<in> set (workflows ui) \<and> wf_state w = ''WAITING_FOR_APPROVAL''
              \<and> (r = \<lparr> http_method = POST,
                       url = API_BASE @ ''/workflows/'' @ wf_id w @ ''/approve'',
                       content_type = Some ''application/json'',
                       body = Some (Decide_body ''approved'' ''user@company.com''
                                      (Some ''Approved via UI'')) \<rparr>
                 \<or> r = \<lparr> http_method = POST,
                       url = API_BASE @ ''/workflows/'' @ wf_id w @ ''/approve'',
                       content_type = Some ''application/json'',
                       body = Some (Decide_body ''rejected'' ''user@company.com''
                                      (Some ''Rejected via UI'')) \<rparr>)))"
  using button_request_WorkflowList[of b w aip posted loaded ui]
    button_request_App[of b w aip posted' loaded ui]
    requests_WorkflowList[of b ui r posted loaded]
    requests_App[of b ui r posted' loaded]
  by blast

theorem decide_requests_conform_witness:
  "\<lparr> label = ''Approve'', disabled = False, onClick = Call_approveWorkflow ''7'' ''approved'' \<rparr>
     \<in> set (decision_buttons_WorkflowList scenario_workflow None)
   \<and> fst (click_WorkflowList
          \<lparr> label = ''Approve'', disabled = False,
            onClick = Call_approveWorkflow ''7'' ''approved'' \<rparr>
          (Response \<lparr> ok = True, json = Inr () \<rparr>) (Network_error ''offline'')
          scenario_dashboard)
       = [\<lparr> http_method = POST, url = ''http://127.0.0.1:8000/workflows/7/approve'',
             content_type = Some ''application/json'',
             body = Some (Decide_body ''approved'' ''user@company.com'' None) \<rparr>,
          \<lparr> http_method = GET, url = ''http://127.0.0.1:8000/workflows'',
             content_type = None, body = None \<rparr>]
   \<and> \<lparr> label = ''Reject'', disabled = False, onClick = Call_approveWorkflow ''7'' ''rejected'' \<rparr>
     \<in> set (decision_buttons_App scenario_workflow None)
   \<and> \<lparr> label = ''Reject'', disabled = False, onClick = Call_approveWorkflow ''7'' ''rejected'' \<rparr>
     \<in> set (buttons_App scenario_dashboard)
   \<and> fst (click_App
          \<lparr> label = ''Reject'', disabled = False,
            onClick = Call_approveWorkflow ''7'' ''rejected'' \<rparr>
          (Response \<lparr> ok = False, json = Inr (Null_body ''errData is null'') \<rparr>)
          (Network_error ''offline'') scenario_dashboard)
       = [\<lparr> http_method = POST, url = ''http://127.0.0.1:8000/workflows/7/approve'',
             content_type = Some ''application/json'',
             body = Some (Decide_body ''rejected'' ''user@company.com''
                            (Some ''Rejected via UI'')) \<rparr>]"
  using decide_requests_conform[of
      "\<lparr> label = ''Approve'', disabled = False,
         onClick = Call_approveWorkflow ''7'' ''approved'' \<rparr>"
      scenario_workflow None "Response \<lparr> ok = True, json = Inr () \<rparr>"
      "Network_error ''offline''" scenario_dashboard
      "Response \<lparr> ok = False, json = Inr (Null_body ''errData is null'') \<rparr>"
      "\<lparr> http_method = GET, url = ''http://127.0.0.1:8000/workflows'',
         content_type = None, body = None \<rparr>"]
    decide_requests_conform[of
      "\<lparr> label = ''Reject'', disabled = False,
         onClick = Call_approveWorkflow ''7'' ''rejected'' \<rparr>"
      scenario_workflow None "Response \<lparr> ok = True, json = Inr () \<rparr>"
      "Network_error ''offline''" scenario_dashboard
      "Response \<lparr> ok = False, json = Inr (Null_body ''errData is null'') \<rparr>"
      "\<lparr> http_method = POST, url = ''http://127.0.0.1:8000/workflows/7/approve'',
         content_type = Some ''application/json'',
         body = Some (Decide_body ''rejected'' ''user@company.com''
                        (Some ''Rejected via UI'')) \<rparr>"]
  by (simp add: scenario_dashboard_def scenario_workflow_def buttons_App_def
      create_button_App_def decision_buttons_WorkflowList_def decision_buttons_App_def
      click_WorkflowList_def click_App_def approveWorkflow_WorkflowList_def
      approveWorkflow_App_def loadWorkflows_WorkflowList_def fetch_post_def fetch_get_def
      API_BASE_def Let_def)

section \<open>Properties of the store and its writes\<close>

lemma transition_Inr:
  assumes "transition i e n fs ev s = Inr s'"
  shows "i < length (records s)" "state (records s ! i) = e"
    "s' = s\<lparr>records := (records s)[i := (apply_fields fs (records s ! i))
               \<lparr>state := n, updated := clock s,
                event_log := event_log (records s ! i) @
                   [\<lparr> log_type = ev, log_at = clock s, log_data = fs \<rparr>]\<rparr>],
             clock := Suc (clock s)\<rparr>"
  using assms by (auto simp: transition_def get_def split: if_splits)

lemma apply_fields_state: "state (apply_fields fs r) = state r"
  by (cases fs) simp_all

lemma transition_effect:
  assumes "transition i e n fs ev s = Inr s'"
  shows "length (records s') = length (records s)"
    and "executor_log s' = executor_log s"
    and "i < length (records s)"
    and "state (records s ! i) = e"
    and "state (records s' ! i) = n"
    and "\<And>j. j \<noteq> i \<Longrightarrow> records s' ! j = records s ! j"
    and "human_decision (records s' ! i) =
          (case fs of With_human_decision d \<Rightarrow> Some d | _ \<Rightarrow> human_decision (records s ! i))"
  using transition_Inr[OF assms] by (auto split: fields.splits)

lemma perform_effect:
  assumes "perform w s = Inr s'"
  shows "\<exists>i e n. i < length (records s) \<and> state (records s ! i) = e \<and> state (records s' ! i) = n
       \<and> edge e n \<and> (\<forall>j. j \<noteq> i \<longrightarrow> records s' ! j = records s ! j)
       \<and> length (records s') = length (records s) \<and> executor_log s' = executor_log s
       \<and> (n \<in> {ACTION_EXECUTED, ACTION_FAILED} \<longrightarrow> human_decision (records s' ! i) = human_decision (records s ! i))
       \<and> (n = ACTION_APPROVED \<longrightarrow> (\<exists>d. w = Approve i d \<and> human_decision (records s' ! i) = Some d))"
proof (cases w)
  case (Claim i)
  then show ?thesis using assms transition_effect[of i RECEIVED AI_ANALYZED No_fields "''claimed''" s s']
    by (auto simp: perform.simps edge_def edges_def)
next
  case (Analyzed i out)
  then show ?thesis using assms
      transition_effect[of i AI_ANALYZED WAITING_FOR_APPROVAL "With_ai_output out" "''analyzed''" s s']
    by (auto simp: perform.simps edge_def edges_def)
next
  case (AI_failed i raw)
  then show ?thesis using assms
      transition_effect[of i AI_ANALYZED AI_FAILED "With_error raw" "''ai_failed''" s s']
    by (auto simp: perform.simps edge_def edges_def)
next
  case (Reject i d)
  then show ?thesis using assms
      transition_effect[of i WAITING_FOR_APPROVAL REJECTED "With_human_decision d" "''rejected''" s s']
    by (auto simp: perform.simps edge_def edges_def)
next
  case (Approve i d)
  then show ?thesis using assms
      transition_effect[of i WAITING_FOR_APPROVAL ACTION_APPROVED "With_human_decision d" "''approved''" s s']
    by (auto simp: perform.simps edge_def edges_def)
next
  case (Executed i)
  then show ?thesis using assms
      transition_effect[of i ACTION_APPROVED ACTION_EXECUTED No_fields "''executed''" s s']
    by (auto simp: perform.simps edge_def edges_def)
next
  case (Failed i err)
  then show ?thesis using assms
      transition_effect[of i ACTION_APPROVED ACTION_FAILED "With_error err" "''action_failed''" s s']
    by (auto simp: perform.simps edge_def edges_def)
qed

section \<open>The approval gate\<close>




lemma get_execute: "get k (execute i s) = get k s"
  by (simp add: execute_def get_def)



lemma get_create:
  "get k s = Some r \<Longrightarrow> get k (snd (create ws text s)) = Some r"
  by (auto simp: create_def get_def nth_append split: if_splits)










lemmas core_eval =
  run_def create_def analyze_def perform.simps transition_def get_def settled_def initial_def
  is_white_space_def decide_def resolved_def execute_def invocations_def Let_def recover_def
  after_write_def


lemma scenario_waiting_eval:
  "scenario_waiting =
    \<lparr> records =
       [\<lparr> ident = 0, state = WAITING_FOR_APPROVAL, request_text = scenario_text,
           ai_output = Some scenario_output, human_decision = None, created = 0, updated = 2,
           event_log =
             [\<lparr> log_type = ''created'', log_at = 0, log_data = No_fields \<rparr>,
              \<lparr> log_type = ''claimed'', log_at = 1, log_data = No_fields \<rparr>,
              \<lparr> log_type = ''analyzed'', log_at = 2,
                 log_data = With_ai_output scenario_output \<rparr>] \<rparr>],
      clock = 3, executor_log = [] \<rparr>"
  using scenario_text_not_blank
  by (simp add: scenario_waiting_def scenario_ops_def core_eval)



section \<open>The edges of the state machine\<close>

lemma edge_rank: "edge a b \<Longrightarrow> rank a < rank b"
  by (auto simp: edge_def edges_def)

lemma path_rank: "edge\<^sup>*\<^sup>* a b \<Longrightarrow> b = a \<or> rank a < rank b"
proof (induction rule: rtranclp_induct)
  case base
  then show ?case by simp
next
  case (step y z)
  then show ?case using edge_rank[of y z] by auto
qed

lemma perform_state:
  assumes p: "perform w s = Inr s'" and r: "get i s = Some r"
  shows "\<exists>r'. get i s' = Some r' \<and> (state r' = state r \<or> edge (state r) (state r'))"
proof -
  from perform_effect[OF p] obtain k e n where
    k: "k < length (records s)" and e: "state (records s ! k) = e"
    and n: "state (records s' ! k) = n" and en: "edge e n"
    and other: "\<And>j. j \<noteq> k \<Longrightarrow> records s' ! j = records s ! j"
    and len: "length (records s') = length (records s)"
    by blast
  from r have i: "i < length (records s)" and ri: "r = records s ! i"
    by (auto simp: get_def split: if_splits)
  have g: "get i s' = Some (records s' ! i)" using i len by (simp add: get_def)
  show ?thesis
  proof (cases "i = k")
    case True
    then show ?thesis using g e n en ri by auto
  next
    case False
    then show ?thesis using g other[of i] ri by auto
  qed
qed

lemma after_write_state:
  assumes r: "get i s = Some r"
  shows "\<exists>r'. get i (after_write w s) = Some r'
           \<and> (state r' = state r \<or> edge (state r) (state r'))"
proof (cases "perform w s")
  case (Inl e)
  then show ?thesis using r by (simp add: after_write_def)
next
  case (Inr s')
  then show ?thesis using perform_state[OF Inr r] by (simp add: after_write_def)
qed

lemma perform_path:
  assumes "get i s = Some r"
  shows "\<exists>r'. get i (snd (settled (perform w s) s)) = Some r' \<and> edge\<^sup>*\<^sup>* (state r) (state r')"
  using after_write_state[OF assms, of w]
  by (auto simp: after_write_def settled_def split: sum.splits)

lemma resolved_path:
  assumes "get i s = Some r"
  shows "\<exists>r'. get i (snd (resolved k (perform w s) s)) = Some r' \<and> edge\<^sup>*\<^sup>* (state r) (state r')"
  using after_write_state[OF assms, of w]
  by (auto simp: after_write_def resolved_def split: sum.splits)

lemma analyze_path:
  assumes r: "get i s = Some r"
  shows "\<exists>r'. get i (snd (analyze k res s)) = Some r' \<and> edge\<^sup>*\<^sup>* (state r) (state r')"
proof (cases "perform (Claim k) s")
  case (Inl e)
  then show ?thesis using r by (simp add: analyze_def)
next
  case (Inr s1)
  from perform_state[OF Inr r] obtain r1 where r1: "get i s1 = Some r1"
    and p1: "edge\<^sup>*\<^sup>* (state r) (state r1)" by auto
  have "\<exists>r'. get i (snd (analyze k res s)) = Some r' \<and> edge\<^sup>*\<^sup>* (state r1) (state r')"
    using Inr r1 perform_path[OF r1]
    by (cases res) (auto simp: analyze_def)
  then show ?thesis using p1 by (meson rtranclp_trans)
qed

lemma decide_path:
  assumes r: "get i s = Some r"
  shows "\<exists>r'. get i (snd (decide k d who note exec s)) = Some r' \<and> edge\<^sup>*\<^sup>* (state r) (state r')"
proof (cases "get k s")
  case None
  then show ?thesis using r by (simp add: decide_def)
next
  case (Some rk)
  show ?thesis
  proof (cases "state rk = WAITING_FOR_APPROVAL")
    case False
    then show ?thesis using r Some by (simp add: decide_def)
  next
    case True
    show ?thesis
    proof (cases d)
      case Rejected
      let ?dec = "\<lparr> decision = Rejected, reviewer = who, reviewer_notes = note, timestamp = clock s \<rparr>"
      show ?thesis
      proof (cases "perform (Reject k ?dec) s")
        case (Inl e)
        then show ?thesis using r Some True Rejected by (simp add: decide_def)
      next
        case (Inr s1)
        from perform_state[OF Inr r] show ?thesis
          using Some True Rejected Inr by (auto simp: decide_def)
      qed
    next
      case Approved
      let ?dec = "\<lparr> decision = Approved, reviewer = who, reviewer_notes = note, timestamp = clock s \<rparr>"
      show ?thesis
      proof (cases "perform (Approve k ?dec) s")
        case (Inl e)
        then show ?thesis using r Some True Approved by (simp add: decide_def)
      next
        case (Inr s1)
        from perform_state[OF Inr r] obtain r1 where r1: "get i s1 = Some r1"
          and p1: "edge\<^sup>*\<^sup>* (state r) (state r1)" by auto
        have r2: "get i (execute k s1) = Some r1" using r1 by (simp add: get_execute)
        have "\<exists>r'. get i (snd (decide k d who note exec s)) = Some r'
                \<and> edge\<^sup>*\<^sup>* (state r1) (state r')"
          using Some True Approved Inr r1 r2 resolved_path[OF r2]
          by (cases exec) (auto simp: decide_def)
        then show ?thesis using p1 by (meson rtranclp_trans)
      qed
    qed
  qed
qed

lemma step_path:
  assumes r: "get i s = Some r"
  shows "\<exists>r'. get i (step ws oper s) = Some r' \<and> edge\<^sup>*\<^sup>* (state r) (state r')"
proof (cases oper)
  case (Create t)
  then show ?thesis using get_create[OF r] by auto
next
  case (Analyze k res)
  then show ?thesis using analyze_path[OF r] by simp
next
  case (Decide k d who nt exec)
  then show ?thesis using decide_path[OF r] by simp
next
  case (Recover k)
  then show ?thesis using perform_path[OF r] by (simp add: recover_def)
qed

lemma run_path:
  assumes "get i s = Some r"
  shows "\<exists>r'. get i (run ws ops s) = Some r' \<and> edge\<^sup>*\<^sup>* (state r) (state r')"
  using assms
proof (induction ops arbitrary: s r)
  case Nil
  then show ?case by (simp add: run_def)
next
  case (Cons oper ops)
  from step_path[OF Cons.prems] obtain r1 where r1: "get i (step ws oper s) = Some r1"
    and p1: "edge\<^sup>*\<^sup>* (state r) (state r1)" by blast
  from Cons.IH[OF r1] obtain r2 where "get i (run ws ops (step ws oper s)) = Some r2"
    and "edge\<^sup>*\<^sup>* (state r1) (state r2)" by blast
  then show ?case using p1 by (auto simp: run_def intro: rtranclp_trans)
qed

lemma create_new:
  "create ws text s = (Inr k, s') \<Longrightarrow>
     get k s = None \<and> (\<exists>r0. get k s' = Some r0 \<and> state r0 = RECEIVED)"
  by (auto simp: create_def get_def split: if_splits)

lemma after_write_Inr: "perform w s = Inr s1 \<Longrightarrow> after_write w s = s1"
  by (simp add: after_write_def)

lemma after_write_Inl: "perform w s = Inl e \<Longrightarrow> after_write w s = s"
  by (simp add: after_write_def)

lemma snd_settled: "snd (settled (perform w s) s) = after_write w s"
  by (simp add: settled_def after_write_def split: sum.splits)

lemma snd_resolved: "snd (resolved i (perform w s) s) = after_write w s"
  by (simp add: resolved_def after_write_def split: sum.splits)

lemma atoms_Nil: "atoms ws [] s = s"
  by (simp add: atoms_def)

lemma atoms_Cons: "atoms ws (a # as) s = atoms ws as (apply_atom ws a s)"
  by (simp add: atoms_def)

lemma atoms_append: "atoms ws (as @ bs) s = atoms ws bs (atoms ws as s)"
  by (simp add: atoms_def)

lemma analyze_atoms: "\<exists>as. snd (analyze i res s) = atoms ws as s"
proof (cases "perform (Claim i) s")
  case (Inl e)
  then have "snd (analyze i res s) = atoms ws [] s" by (simp add: analyze_def atoms_Nil)
  then show ?thesis by blast
next
  case (Inr s1)
  then have s1: "s1 = after_write (Claim i) s" by (simp add: after_write_Inr)
  show ?thesis
  proof (cases res)
    case (Valid_output out)
    then have "snd (analyze i res s) = atoms ws [Write (Claim i), Write (Analyzed i out)] s"
      using Inr s1 by (simp add: analyze_def snd_settled atoms_Cons atoms_Nil)
    then show ?thesis by blast
  next
    case (Invalid_output raw)
    then have "snd (analyze i res s) = atoms ws [Write (Claim i), Write (AI_failed i raw)] s"
      using Inr s1 by (simp add: analyze_def snd_settled atoms_Cons atoms_Nil)
    then show ?thesis by blast
  next
    case (AI_unavailable raw)
    then have "snd (analyze i res s) = atoms ws [Write (Claim i), Write (AI_failed i raw)] s"
      using Inr s1 by (simp add: analyze_def snd_settled atoms_Cons atoms_Nil)
    then show ?thesis by blast
  next
    case Analyzer_crashed
    then have "snd (analyze i res s) = atoms ws [Write (Claim i)] s"
      using Inr s1 by (simp add: analyze_def atoms_Cons atoms_Nil)
    then show ?thesis by blast
  qed
qed

lemma decide_atoms: "\<exists>as. snd (decide i d who note exec s) = atoms ws as s"
proof (cases "get i s")
  case None
  then have "snd (decide i d who note exec s) = atoms ws [] s" by (simp add: decide_def atoms_Nil)
  then show ?thesis by blast
next
  case (Some r)
  show ?thesis
  proof (cases "state r = WAITING_FOR_APPROVAL")
    case False
    then have "snd (decide i d who note exec s) = atoms ws [] s"
      using Some by (simp add: decide_def atoms_Nil)
    then show ?thesis by blast
  next
    case True
    let ?dec = "\<lparr> decision = d, reviewer = who, reviewer_notes = note, timestamp = clock s \<rparr>"
    show ?thesis
    proof (cases d)
      case Rejected
      show ?thesis
      proof (cases "perform (Reject i ?dec) s")
        case (Inl e)
        then have "snd (decide i d who note exec s) = atoms ws [] s"
          using Some True Rejected by (simp add: decide_def atoms_Nil)
        then show ?thesis by blast
      next
        case (Inr s1)
        then have "snd (decide i d who note exec s) = atoms ws [Write (Reject i ?dec)] s"
          using Some True Rejected by (simp add: decide_def atoms_Cons atoms_Nil after_write_Inr)
        then show ?thesis by blast
      qed
    next
      case Approved
      show ?thesis
      proof (cases "perform (Approve i ?dec) s")
        case (Inl e)
        then have "snd (decide i d who note exec s) = atoms ws [] s"
          using Some True Approved by (simp add: decide_def atoms_Nil)
        then show ?thesis by blast
      next
        case (Inr s1)
        then have s1: "after_write (Approve i ?dec) s = s1" by (simp add: after_write_Inr)
        show ?thesis
        proof (cases exec)
          case Executor_ok
          then have "snd (decide i d who note exec s)
              = atoms ws [Write (Approve i ?dec), Invoke i, Write (Executed i)] s"
            using Some True Approved Inr s1
            by (simp add: decide_def atoms_Cons atoms_Nil snd_resolved)
          then show ?thesis by blast
        next
          case (Executor_failed err)
          then have "snd (decide i d who note exec s)
              = atoms ws [Write (Approve i ?dec), Invoke i, Write (Failed i err)] s"
            using Some True Approved Inr s1
            by (simp add: decide_def atoms_Cons atoms_Nil snd_resolved)
          then show ?thesis by blast
        next
          case Crash_before_dispatch
          then have "snd (decide i d who note exec s) = atoms ws [Write (Approve i ?dec)] s"
            using Some True Approved Inr s1
            by (simp add: decide_def atoms_Cons atoms_Nil)
          then show ?thesis by blast
        next
          case Crash_after_dispatch
          then have "snd (decide i d who note exec s)
              = atoms ws [Write (Approve i ?dec), Invoke i] s"
            using Some True Approved Inr s1
            by (simp add: decide_def atoms_Cons atoms_Nil)
          then show ?thesis by blast
        qed
      qed
    qed
  qed
qed

lemma step_atoms: "\<exists>as. step ws oper s = atoms ws as s"
proof (cases oper)
  case (Create t)
  then have "step ws oper s = atoms ws [Insert t] s" by (simp add: atoms_Cons atoms_Nil)
  then show ?thesis by blast
next
  case (Analyze i res)
  then show ?thesis using analyze_atoms[of i res s ws] by simp
next
  case (Decide i d who nt exec)
  then show ?thesis using decide_atoms[of i d who nt exec s ws] by simp
next
  case (Recover i)
  then have "step ws oper s = atoms ws [Write (Failed i ''recovered'')] s"
    by (simp add: recover_def snd_settled atoms_Cons atoms_Nil)
  then show ?thesis by blast
qed

lemma run_atoms: "\<exists>as. run ws ops s = atoms ws as s"
proof (induction ops arbitrary: s)
  case Nil
  have "run ws [] s = atoms ws [] s" by (simp add: run_def atoms_Nil)
  then show ?case by blast
next
  case (Cons oper ops)
  from step_atoms obtain as where a: "step ws oper s = atoms ws as s" by blast
  from Cons.IH obtain bs where b: "run ws ops (step ws oper s) = atoms ws bs (step ws oper s)"
    by blast
  have "run ws (oper # ops) s = atoms ws (as @ bs) s"
    using a b by (simp add: run_def atoms_append)
  then show ?case by blast
qed

lemma apply_atom_state:
  assumes r: "get i s = Some r"
  shows "\<exists>r'. get i (apply_atom ws a s) = Some r'
           \<and> (state r' = state r \<or> edge (state r) (state r'))"
proof (cases a)
  case (Insert t)
  then show ?thesis using get_create[OF r] by simp
next
  case (Write w)
  then show ?thesis using after_write_state[OF r] by simp
next
  case (Invoke k)
  then show ?thesis using r by (simp add: get_execute)
qed

text \<open>
  Claim C2: the system changes only by atoms: the insertion of a record, one conditional
  write of the analyzer, the gateway or the recovery, and one invocation of the executor.
  Every operation, and so every run of operations, is a sequence of atoms, and for every
  record of any store, (1) each atom, and in particular each conditional write, leaves the
  state of the record as it is or moves it along one of the seven edges; (2) creating a
  workflow leaves the record as it is, and the record it adds starts in \<open>RECEIVED\<close>;
  (3) after any sequence of operations the state of the record is reachable from its
  earlier state along the edges, and it is either unchanged or of strictly higher rank, so
  a state once left is never entered again.
\<close>

theorem state_changes_follow_edges:
  assumes "get i s = Some r"
  shows "(\<exists>r'. get i (after_write w s) = Some r'
            \<and> (state r' = state r \<or> edge (state r) (state r')))
       \<and> get i (snd (create ws text s)) = Some r
       \<and> (create ws text s = (Inr k, s1) \<longrightarrow>
            get k s = None \<and> (\<exists>r0. get k s1 = Some r0 \<and> state r0 = RECEIVED))
       \<and> (\<exists>r'. get i (run ws ops s) = Some r' \<and> edge\<^sup>*\<^sup>* (state r) (state r')
            \<and> (state r' = state r \<or> rank (state r) < rank (state r')))
       \<and> (\<exists>r'. get i (apply_atom ws a s) = Some r'
            \<and> (state r' = state r \<or> edge (state r) (state r')))
       \<and> (\<exists>as. step ws oper s = atoms ws as s)
       \<and> (\<exists>as. run ws ops s = atoms ws as s)"
proof -
  from run_path[OF assms] obtain r' where a: "get i (run ws ops s) = Some r'"
    and b: "edge\<^sup>*\<^sup>* (state r) (state r')" by blast
  have old: "(\<exists>r'. get i (after_write w s) = Some r'
            \<and> (state r' = state r \<or> edge (state r) (state r')))
       \<and> get i (snd (create ws text s)) = Some r
       \<and> (create ws text s = (Inr k, s1) \<longrightarrow>
            get k s = None \<and> (\<exists>r0. get k s1 = Some r0 \<and> state r0 = RECEIVED))
       \<and> (\<exists>r'. get i (run ws ops s) = Some r' \<and> edge\<^sup>*\<^sup>* (state r) (state r')
            \<and> (state r' = state r \<or> rank (state r) < rank (state r')))"
    using path_rank[OF b] a b after_write_state[OF assms] get_create[OF assms] create_new
    by blast
  show ?thesis
    using old apply_atom_state[OF assms, of ws a] step_atoms[of ws oper s] run_atoms[of ws ops s]
    by blast
qed

theorem state_changes_follow_edges_witness:
  "get 0 scenario_waiting = Some (records scenario_waiting ! 0)
   \<and> state (records scenario_waiting ! 0) = WAITING_FOR_APPROVAL
   \<and> (\<exists>r'. get 0 (after_write (Executed 0) scenario_waiting) = Some r'
          \<and> state r' = WAITING_FOR_APPROVAL)
   \<and> (\<exists>r'. get 0 (after_write (Reject 0 \<lparr> decision = Rejected, reviewer = ''r@x.com'',
                 reviewer_notes = None, timestamp = 3 \<rparr>) scenario_waiting) = Some r'
          \<and> edge WAITING_FOR_APPROVAL (state r') \<and> state r' = REJECTED)
   \<and> create is_white_space scenario_text scenario_waiting
        = (Inr 1, snd (create is_white_space scenario_text scenario_waiting))
   \<and> get 1 scenario_waiting = None
   \<and> (\<exists>r0. get 1 (snd (create is_white_space scenario_text scenario_waiting)) = Some r0
          \<and> state r0 = RECEIVED)
   \<and> (\<exists>r'. get 0 (run is_white_space [Decide 0 Approved ''r@x.com'' None Executor_ok,
                 Recover 0, Analyze 0 Analyzer_crashed] scenario_waiting) = Some r'
          \<and> edge\<^sup>*\<^sup>* WAITING_FOR_APPROVAL (state r') \<and> state r' = ACTION_EXECUTED
          \<and> rank WAITING_FOR_APPROVAL < rank (state r'))
   \<and> run is_white_space [Decide 0 Approved ''r@x.com'' None Executor_ok] scenario_waiting
        = atoms is_white_space
            [Write (Approve 0 \<lparr> decision = Approved, reviewer = ''r@x.com'',
                 reviewer_notes = None, timestamp = 3 \<rparr>), Invoke 0, Write (Executed 0)]
            scenario_waiting"
proof -
  have g: "get 0 scenario_waiting = Some (records scenario_waiting ! 0)"
    and st: "state (records scenario_waiting ! 0) = WAITING_FOR_APPROVAL"
    by (simp_all add: scenario_waiting_eval get_def)
  have a: "map_option state (get 0 (after_write (Executed 0) scenario_waiting))
      = Some WAITING_FOR_APPROVAL"
    by (simp add: scenario_waiting_eval core_eval)
  have b: "map_option state (get 0 (after_write (Reject 0 \<lparr> decision = Rejected,
      reviewer = ''r@x.com'', reviewer_notes = None, timestamp = 3 \<rparr>) scenario_waiting))
      = Some REJECTED"
    by (simp add: scenario_waiting_eval core_eval)
  have c: "map_option state (get 0 (run is_white_space [Decide 0 Approved ''r@x.com'' None
      Executor_ok, Recover 0, Analyze 0 Analyzer_crashed] scenario_waiting)) = Some ACTION_EXECUTED"
    by (simp add: scenario_waiting_eval core_eval)
  have d: "create is_white_space scenario_text scenario_waiting
        = (Inr 1, snd (create is_white_space scenario_text scenario_waiting))"
    using scenario_text_not_blank by (simp add: scenario_waiting_eval create_def)
  have e: "run is_white_space [Decide 0 Approved ''r@x.com'' None Executor_ok] scenario_waiting
        = atoms is_white_space
            [Write (Approve 0 \<lparr> decision = Approved, reviewer = ''r@x.com'',
                 reviewer_notes = None, timestamp = 3 \<rparr>), Invoke 0, Write (Executed 0)]
            scenario_waiting"
    by (simp add: scenario_waiting_eval core_eval atoms_def)
  note inst = state_changes_follow_edges[OF g, where ws = is_white_space
      and ?text = scenario_text and k = 1
      and ?s1.0 = "snd (create is_white_space scenario_text scenario_waiting)"]
  have w1: "\<exists>r'. get 0 (after_write (Executed 0) scenario_waiting) = Some r'
      \<and> (state r' = state (records scenario_waiting ! 0)
           \<or> edge (state (records scenario_waiting ! 0)) (state r'))"
    using inst[where w = "Executed 0" and ops = "[]"] by blast
  have w2: "\<exists>r'. get 0 (after_write (Reject 0 \<lparr> decision = Rejected, reviewer = ''r@x.com'',
                 reviewer_notes = None, timestamp = 3 \<rparr>) scenario_waiting) = Some r'
      \<and> (state r' = state (records scenario_waiting ! 0)
           \<or> edge (state (records scenario_waiting ! 0)) (state r'))"
    using inst[where w = "Reject 0 \<lparr> decision = Rejected, reviewer = ''r@x.com'',
                 reviewer_notes = None, timestamp = 3 \<rparr>" and ops = "[]"] by blast
  have w3: "\<exists>r'. get 0 (run is_white_space [Decide 0 Approved ''r@x.com'' None Executor_ok,
                 Recover 0, Analyze 0 Analyzer_crashed] scenario_waiting) = Some r'
      \<and> edge\<^sup>*\<^sup>* (state (records scenario_waiting ! 0)) (state r')
      \<and> (state r' = state (records scenario_waiting ! 0)
           \<or> rank (state (records scenario_waiting ! 0)) < rank (state r'))"
    using inst[where w = "Executed 0" and ops = "[Decide 0 Approved ''r@x.com'' None
        Executor_ok, Recover 0, Analyze 0 Analyzer_crashed]"] by blast
  have w4: "get 1 scenario_waiting = None
      \<and> (\<exists>r0. get 1 (snd (create is_white_space scenario_text scenario_waiting)) = Some r0
          \<and> state r0 = RECEIVED)"
    using inst[where w = "Executed 0" and ops = "[]"] d by blast
  show ?thesis
    using w1 w2 w3 w4 g st a b c d e by auto
qed

section \<open>Who may decide, and what is created\<close>




text \<open>
  Claim C5: for a text that is empty or all whitespace, \<open>create\<close> fails with
  \<open>ValidationError\<close> and the store stays as it was; and when the text area holds such a
  text, \<open>createWorkflow\<close> of either dashboard variant issues no request, nor does a click
  on the Create button.
\<close>

theorem blank_text_creates_nothing:
  "(list_all ws text \<longrightarrow> create ws text s = (Inl ValidationError, s))
   \<and> (list_all is_white_space (newRequest ui) \<longrightarrow>
        fst (createWorkflow_WorkflowList posted loaded ui) = []
        \<and> fst (createWorkflow_App posted' loaded ui) = []
        \<and> fst (click_WorkflowList (create_button_WorkflowList ui) posted loaded ui) = []
        \<and> fst (click_App (create_button_App ui) posted' loaded ui) = [])"
proof -
  have server: "list_all ws text \<longrightarrow> create ws text s = (Inl ValidationError, s)"
    by (simp add: create_def)
  have client: "list_all is_white_space (newRequest ui) \<longrightarrow>
        fst (createWorkflow_WorkflowList posted loaded ui) = []
        \<and> fst (createWorkflow_App posted' loaded ui) = []
        \<and> fst (click_WorkflowList (create_button_WorkflowList ui) posted loaded ui) = []
        \<and> fst (click_App (create_button_App ui) posted' loaded ui) = []"
    by (simp add: createWorkflow_WorkflowList_def createWorkflow_App_def trim_blank
        click_WorkflowList_def click_App_def create_button_WorkflowList_def
        create_button_App_def)
  show ?thesis
    using server client by (rule conjI)
qed

theorem blank_text_creates_nothing_witness:
  "list_all is_white_space [0x20, 0x09, 0xA0]
   \<and> list_all is_white_space []
   \<and> create is_white_space [0x20, 0x09, 0xA0] initial = (Inl ValidationError, initial)
   \<and> create is_white_space [] initial = (Inl ValidationError, initial)
   \<and> newRequest scenario_dashboard = [0x20, 0x09, 0xA0]
   \<and> fst (createWorkflow_WorkflowList (Network_error ''offline'' :: unit fetch_outcome)
        (Network_error ''offline'') scenario_dashboard) = []
   \<and> fst (createWorkflow_App (Network_error ''offline'') (Network_error ''offline'')
        scenario_dashboard) = []"
proof -
  have blank: "list_all is_white_space [0x20, 0x09, 0xA0]" "list_all is_white_space []"
    by (simp_all add: is_white_space_def)
  have held: "newRequest scenario_dashboard = [0x20, 0x09, 0xA0]"
    by (simp add: scenario_dashboard_def)
  show ?thesis
    using blank_text_creates_nothing[of is_white_space "[0x20, 0x09, 0xA0]" initial
        scenario_dashboard "Network_error ''offline'' :: unit fetch_outcome"
        "Network_error ''offline''" "Network_error ''offline''"]
      blank_text_creates_nothing[of is_white_space "[]" initial
        scenario_dashboard "Network_error ''offline'' :: unit fetch_outcome"
        "Network_error ''offline''" "Network_error ''offline''"]
      blank held
    by simp
qed

section \<open>Two decisions racing for one record\<close>

lemma advance_fields:
  assumes "advance c s = (c', s')"
  shows "call_id c' = call_id c" "call_executor c' = call_executor c"
    "call_decision c' = call_decision c"
  using assms
  by (auto simp: advance_def finish_def Let_def
      split: phase.splits option.splits if_splits decision.splits sum.splits
        executor_result.splits)

lemma advance_remaining:
  assumes "advance c s = (c', s')"
  shows "remaining (call_phase c') \<le> remaining (call_phase c) - 1"
  using assms
  by (auto simp: advance_def finish_def Let_def
      split: phase.splits option.splits if_splits decision.splits sum.splits
        executor_result.splits)

lemma write_from:
  assumes "get i s = Some r" and "state r = e"
  shows "\<exists>s1. transition i e n fs ev s = Inr s1 \<and> get i s1 = Some (records s1 ! i)
           \<and> state (records s1 ! i) = n"
  using assms by (auto simp: transition_def get_def split: if_splits)

lemma write_stale:
  assumes "get i s = Some r" and "state r \<noteq> e"
  shows "transition i e n fs ev s = Inl StaleStateError"
  using assms by (simp add: transition_def)

lemma leading_not_waiting:
  "leading i c s \<Longrightarrow> \<exists>r. get i s = Some r \<and> state r \<noteq> WAITING_FOR_APPROVAL"
  by (auto simp: leading_def split: phase.splits sum.splits)

lemma pending_step:
  assumes w: "map_option state (get i s) = Some WAITING_FOR_APPROVAL"
    and p: "pending c" and i: "call_id c = i" and a: "advance c s = (c', s')"
  shows "(pending c' \<and> s' = s) \<or> leading i c' s'"
proof -
  from w obtain r where r: "get i s = Some r" "state r = WAITING_FOR_APPROVAL" by auto
  show ?thesis
  proof (cases "call_phase c = Checking")
    case True
    then show ?thesis using a i r by (auto simp: advance_def pending_def)
  next
    case False
    then have wr: "call_phase c = Writing" using p by (simp add: pending_def)
    let ?dec = "\<lparr> decision = call_decision c, reviewer = call_reviewer c,
                       reviewer_notes = call_notes c, timestamp = clock s \<rparr>"
    show ?thesis
    proof (cases "call_decision c")
      case Rejected
      from write_from[OF r, of REJECTED "With_human_decision ?dec" "''rejected''"]
      obtain s1 where "perform (Reject i ?dec) s = Inr s1" "get i s1 = Some (records s1 ! i)"
        "state (records s1 ! i) = REJECTED" by (auto simp: perform.simps)
      then show ?thesis using a i wr Rejected
        by (auto simp: advance_def finish_def leading_def Let_def)
    next
      case Approved
      from write_from[OF r, of ACTION_APPROVED "With_human_decision ?dec" "''approved''"]
      obtain s1 where "perform (Approve i ?dec) s = Inr s1" "get i s1 = Some (records s1 ! i)"
        "state (records s1 ! i) = ACTION_APPROVED" by (auto simp: perform.simps)
      then show ?thesis using a i wr Approved
        by (auto simp: advance_def finish_def leading_def Let_def)
    qed
  qed
qed

lemma leading_step:
  assumes l: "leading i c s" and i: "call_id c = i" and n: "\<not> crashes (call_executor c)"
    and a: "advance c s = (c', s')"
  shows "leading i c' s'"
proof (cases "call_phase c")
  case Checking
  then show ?thesis using l by (simp add: leading_def)
next
  case Writing
  then show ?thesis using l by (simp add: leading_def)
next
  case Dispatching
  then show ?thesis using l a i n
    by (cases "call_executor c") (auto simp: advance_def leading_def get_execute crashes_def)
next
  case Resolving
  with l obtain r where r: "get i s = Some r" "state r = ACTION_APPROVED"
    by (auto simp: leading_def)
  show ?thesis
  proof (cases "call_executor c")
    case Executor_ok
    from write_from[OF r, of ACTION_EXECUTED No_fields "''executed''"]
    obtain s1 where "perform (Executed i) s = Inr s1" "get i s1 = Some (records s1 ! i)"
      "state (records s1 ! i) = ACTION_EXECUTED" by (auto simp: perform.simps)
    then show ?thesis using a i Resolving Executor_ok
      by (auto simp: advance_def finish_def resolved_def leading_def)
  next
    case (Executor_failed err)
    from write_from[OF r, of ACTION_FAILED "With_error err" "''action_failed''"]
    obtain s1 where "perform (Failed i err) s = Inr s1" "get i s1 = Some (records s1 ! i)"
      "state (records s1 ! i) = ACTION_FAILED" by (auto simp: perform.simps)
    then show ?thesis using a i Resolving Executor_failed
      by (auto simp: advance_def finish_def resolved_def leading_def)
  next
    case Crash_before_dispatch
    then show ?thesis using n by (simp add: crashes_def)
  next
    case Crash_after_dispatch
    then show ?thesis using n by (simp add: crashes_def)
  qed
next
  case (Finished res)
  then show ?thesis using l a by (auto simp: advance_def)
qed

lemma trailing_step:
  assumes t: "trailing c" and r: "get i s = Some r" "state r \<noteq> WAITING_FOR_APPROVAL"
    and i: "call_id c = i" and a: "advance c s = (c', s')"
  shows "trailing c' \<and> s' = s"
proof (cases "call_phase c")
  case Checking
  then show ?thesis using a i r
    by (auto simp: advance_def finish_def trailing_def refused_def)
next
  case Writing
  have "perform (Reject i dec) s = Inl StaleStateError"
    "perform (Approve i dec) s = Inl StaleStateError" for dec
    using write_stale[OF r] by (simp_all add: perform.simps)
  then show ?thesis using a i Writing
    by (cases "call_decision c")
      (auto simp: advance_def finish_def trailing_def refused_def Let_def)
next
  case Dispatching
  then show ?thesis using t by (simp add: trailing_def pending_def refused_def)
next
  case Resolving
  then show ?thesis using t by (simp add: trailing_def pending_def refused_def)
next
  case (Finished res)
  then show ?thesis using t a by (auto simp: advance_def)
qed

lemma raced_first:
  assumes rc: "raced i c1 c2 s" and i: "call_id c1 = i" and n: "\<not> crashes (call_executor c1)"
    and a: "advance c1 s = (c1', s')"
  shows "raced i c1' c2 s'"
proof -
  consider (waiting) "map_option state (get i s) = Some WAITING_FOR_APPROVAL" "pending c1" "pending c2"
    | (ahead) "leading i c1 s" "trailing c2"
    | (behind) "leading i c2 s" "trailing c1"
    using rc unfolding raced_def by blast
  then show ?thesis
  proof cases
    case waiting
    from pending_step[OF waiting(1,2) i a] show ?thesis
      using waiting by (auto simp: raced_def trailing_def)
  next
    case ahead
    from leading_step[OF ahead(1) i n a] show ?thesis
      using ahead by (simp add: raced_def)
  next
    case behind
    from leading_not_waiting[OF behind(1)] obtain r where "get i s = Some r"
      "state r \<noteq> WAITING_FOR_APPROVAL" by blast
    from trailing_step[OF behind(2) this i a] show ?thesis
      using behind by (simp add: raced_def)
  qed
qed

lemma raced_sym: "raced i c1 c2 s = raced i c2 c1 s"
  by (auto simp: raced_def)

lemma raced_interleave:
  assumes "raced i c1 c2 s" "call_id c1 = i" "call_id c2 = i"
    "\<not> crashes (call_executor c1)" "\<not> crashes (call_executor c2)"
    "interleave sched (c1, c2, s) = (c1', c2', s')"
  shows "raced i c1' c2' s'"
  using assms
proof (induction sched arbitrary: c1 c2 s)
  case Nil
  then show ?case by simp
next
  case (Cons first sched)
  show ?case
  proof (cases first)
    case True
    obtain d1 s1 where adv: "advance c1 s = (d1, s1)" by (cases "advance c1 s")
    have rest: "interleave sched (d1, c2, s1) = (c1', c2', s')"
      using Cons.prems(6) True adv by simp
    show ?thesis
      using Cons.IH[OF raced_first[OF Cons.prems(1,2,4) adv] _ Cons.prems(3) _ Cons.prems(5) rest]
        advance_fields[OF adv] Cons.prems(2,4) by simp
  next
    case False
    obtain d2 s2 where adv: "advance c2 s = (d2, s2)" by (cases "advance c2 s")
    have rest: "interleave sched (c1, d2, s2) = (c1', c2', s')"
      using Cons.prems(6) False adv by simp
    have "raced i d2 c1 s2"
      using raced_first[OF _ Cons.prems(3,5) adv] Cons.prems(1) by (simp add: raced_sym)
    then have "raced i c1 d2 s2" by (simp add: raced_sym)
    from Cons.IH[OF this Cons.prems(2) _ Cons.prems(4) _ rest]
    show ?thesis using advance_fields[OF adv] Cons.prems(3,5) by simp
  qed
qed

lemma remaining_interleave:
  assumes "interleave sched (c1, c2, s) = (c1', c2', s')"
  shows "remaining (call_phase c1') \<le> remaining (call_phase c1) - length (filter id sched)
       \<and> remaining (call_phase c2') \<le> remaining (call_phase c2) - length (filter Not sched)"
  using assms
proof (induction sched arbitrary: c1 c2 s)
  case Nil
  then show ?case by simp
next
  case (Cons first sched)
  show ?case
  proof (cases first)
    case True
    obtain d1 s1 where adv: "advance c1 s = (d1, s1)" by (cases "advance c1 s")
    have rest: "interleave sched (d1, c2, s1) = (c1', c2', s')"
      using Cons.prems True adv by simp
    from Cons.IH[OF rest] advance_remaining[OF adv] True show ?thesis by auto
  next
    case False
    obtain d2 s2 where adv: "advance c2 s = (d2, s2)" by (cases "advance c2 s")
    have rest: "interleave sched (c1, d2, s2) = (c1', c2', s')"
      using Cons.prems False adv by simp
    from Cons.IH[OF rest] advance_remaining[OF adv] False show ?thesis by auto
  qed
qed

lemma finished_remaining: "finished c = (remaining (call_phase c) = 0)"
  by (cases "call_phase c") (simp_all add: finished_def)

lemma raced_outcome:
  assumes "raced i c1 c2 s" "finished c1" "finished c2"
  shows "(succeeded c1 \<and> refused c2 \<or> refused c1 \<and> succeeded c2)
       \<and> (\<exists>r. get i s = Some r
              \<and> (state r = REJECTED \<or> state r = ACTION_EXECUTED \<or> state r = ACTION_FAILED))"
  using assms
  by (auto simp: raced_def finished_def pending_def trailing_def leading_def succeeded_def
      split: phase.splits sum.splits)

text \<open>A call that runs alone, to its end, is \<open>decide\<close>.\<close>

lemma call_alone_is_decide:
  "interleave [True, True, True, True] (new_call i d who nt e, c2, s)
     = ((new_call i d who nt e)\<lparr>call_phase := Finished (fst (decide i d who nt e s))\<rparr>, c2,
        snd (decide i d who nt e s))"
  by (auto simp: advance_def finish_def new_call_def decide_def resolved_def Let_def
      split: option.splits decision.splits sum.splits executor_result.splits)

text \<open>
  Claim C4: two calls of \<open>decide\<close> are made on the same record in
  \<open>WAITING_FOR_APPROVAL\<close>, with any decisions, and run interleaved in any order, step by
  step; the process of neither dies. When both have finished, exactly one of them has
  succeeded, with the record in a terminal state, and the other has failed with
  \<open>InvalidStateError\<close>. And both have finished as soon as each has been given four steps.
\<close>

theorem concurrent_decides_one_winner:
  assumes "get i s = Some r" and "state r = WAITING_FOR_APPROVAL"
    and "\<not> crashes e1" and "\<not> crashes e2"
    and "interleave sched (new_call i d1 who1 n1 e1, new_call i d2 who2 n2 e2, s) = (c1, c2, s')"
  shows "(finished c1 \<and> finished c2 \<longrightarrow>
            (succeeded c1 \<and> refused c2 \<or> refused c1 \<and> succeeded c2)
            \<and> (\<exists>r'. get i s' = Some r'
                  \<and> (state r' = REJECTED \<or> state r' = ACTION_EXECUTED
                      \<or> state r' = ACTION_FAILED)))
       \<and> (4 \<le> length (filter id sched) \<and> 4 \<le> length (filter Not sched) \<longrightarrow>
            finished c1 \<and> finished c2)"
proof -
  have start: "raced i (new_call i d1 who1 n1 e1) (new_call i d2 who2 n2 e2) s"
    using assms(1,2) by (simp add: raced_def pending_def new_call_def)
  have rc: "raced i c1 c2 s'"
    using raced_interleave[OF start _ _ _ _ assms(5)] assms(3,4) by (simp add: new_call_def)
  have live: "4 \<le> length (filter id sched) \<and> 4 \<le> length (filter Not sched) \<longrightarrow>
            finished c1 \<and> finished c2"
    using remaining_interleave[OF assms(5)]
    by (auto simp: finished_remaining new_call_def)
  show ?thesis using raced_outcome[OF rc] live by blast
qed

theorem concurrent_decides_one_winner_witness:
  "get 0 scenario_waiting = Some (records scenario_waiting ! 0)
   \<and> state (records scenario_waiting ! 0) = WAITING_FOR_APPROVAL
   \<and> crashes Executor_ok = False
   \<and> length (filter id [True, False, False, True, True, True, False, False]) = 4
   \<and> length (filter Not [True, False, False, True, True, True, False, False]) = 4
   \<and> (case interleave [True, False, False, True, True, True, False, False]
              (new_call 0 Approved ''a@x.com'' None Executor_ok,
               new_call 0 Rejected ''b@x.com'' (Some ''not now'') Executor_ok,
               scenario_waiting) of
         (c1, c2, s') \<Rightarrow>
           finished c1 \<and> finished c2 \<and> refused c1 \<and> succeeded c2
           \<and> map_option state (get 0 s') = Some REJECTED)
   \<and> (case interleave [True, True, False, False, True, True, False, False]
              (new_call 0 Approved ''a@x.com'' None Executor_ok,
               new_call 0 Rejected ''b@x.com'' (Some ''not now'') Executor_ok,
               scenario_waiting) of
         (c1, c2, s') \<Rightarrow>
           finished c1 \<and> finished c2 \<and> succeeded c1 \<and> refused c2
           \<and> map_option state (get 0 s') = Some ACTION_EXECUTED)"
proof -
  have g: "get 0 scenario_waiting = Some (records scenario_waiting ! 0)"
    and st: "state (records scenario_waiting ! 0) = WAITING_FOR_APPROVAL"
    by (simp_all add: scenario_waiting_eval get_def)
  have ok: "\<not> crashes Executor_ok" by (simp add: crashes_def)
  obtain c1 c2 s' where run1:
    "interleave [True, False, False, True, True, True, False, False]
       (new_call 0 Approved ''a@x.com'' None Executor_ok,
        new_call 0 Rejected ''b@x.com'' (Some ''not now'') Executor_ok,
        scenario_waiting) = (c1, c2, s')"
    by (metis prod_cases3)
  obtain d1 d2 t' where run2:
    "interleave [True, True, False, False, True, True, False, False]
       (new_call 0 Approved ''a@x.com'' None Executor_ok,
        new_call 0 Rejected ''b@x.com'' (Some ''not now'') Executor_ok,
        scenario_waiting) = (d1, d2, t')"
    by (metis prod_cases3)
  have e1: "refused c1 \<and> map_option state (get 0 s') = Some REJECTED"
    using run1
    by (auto simp: scenario_waiting_eval advance_def finish_def new_call_def refused_def
        core_eval)
  have e2: "refused d2 \<and> map_option state (get 0 t') = Some ACTION_EXECUTED"
    using run2
    by (auto simp: scenario_waiting_eval advance_def finish_def new_call_def refused_def
        core_eval)
  have no_both: "\<And>c. \<not> (succeeded c \<and> refused c)"
    by (auto simp: succeeded_def refused_def)
  show ?thesis
    using concurrent_decides_one_winner[OF g st ok ok run1]
      concurrent_decides_one_winner[OF g st ok ok run2]
      g st ok run1 run2 e1 e2 no_both
    by auto
qed

end
